theory Spec2Isabelle
  imports Complex_Main "HOL-Library.AList"
begin

section \<open>Data model of the analytics tracker\<close>

text \<open>
  The tracker is a single TypeScript class, \<open>AnalyticsTracker\<close>, with a helper class
  \<open>Transport\<close>. JavaScript numbers that the code uses as counters, sizes and
  millisecond delays are modelled as \<open>int\<close>; a string that JavaScript tests for
  truthiness is a \<open>string\<close> whose falsy value is the empty string; an optional field
  is an \<open>option\<close> (\<open>null\<close> and \<open>undefined\<close> are both \<open>None\<close>).
\<close>

subsection \<open>Event kinds (enum \<open>EventType\<close>)\<close>

definition PAGE_VIEW :: string where "PAGE_VIEW = ''page_view''"
definition CUSTOM :: string where "CUSTOM = ''event''"
definition GOAL :: string where "GOAL = ''goal''"
definition ECOMMERCE :: string where "ECOMMERCE = ''ecommerce''"
definition VISIBILITY :: string where "VISIBILITY = ''visibility''"
definition FOCUS :: string where "FOCUS = ''focus''"
definition BLUR :: string where "BLUR = ''blur''"
definition ENGAGEMENT :: string where "ENGAGEMENT = ''engagement''"
definition PERFORMANCE :: string where "PERFORMANCE = ''performance''"
definition HEATMAP :: string where "HEATMAP = ''heatmap''"
definition RESOURCE_ERROR :: string where "RESOURCE_ERROR = ''resource_error''"
definition JS_ERROR :: string where "JS_ERROR = ''js_error''"

subsection \<open>Structured values (\<open>AnyObject\<close> payloads, custom dimensions)\<close>

datatype json =
    JUndefined
  | JNull
  | JBool bool
  | JNum int
  | JStr string
  | JArr "json list"
  | JObj "(string \<times> json) list"

datatype dim_value = DimStr string | DimNum int | DimBool bool

subsection \<open>\<open>TrackerConfig\<close>, \<open>BaseEvent\<close>, the batch sent to the endpoint\<close>

record TrackerConfig =
  siteId :: string
  collectionEndpoint :: string
  batchSize :: int
  flushInterval :: int
  debug :: bool
  trackOutlinks :: bool
  trackDownloads :: bool
  scrollDepthPercentages :: "int list"
  maxHeatmapPoints :: int
  retryBackoffBaseMs :: int
  retryMaxAttempts :: int

text \<open>\<open>DEFAULTS\<close>; \<open>process.env.COLLECTION_ENDPOINT || ""\<close> is a build-time constant,
  taken as a parameter.\<close>

definition DEFAULTS :: "string \<Rightarrow> TrackerConfig" where
  "DEFAULTS env_endpoint =
     \<lparr> siteId = '''', collectionEndpoint = env_endpoint, batchSize = 15,
       flushInterval = 5000, debug = False, trackOutlinks = True, trackDownloads = True,
       scrollDepthPercentages = [25, 50, 75, 100], maxHeatmapPoints = 500,
       retryBackoffBaseMs = 500, retryMaxAttempts = 4 \<rparr>"

record TrackerEvent =
  ev_type :: string
  ts :: int
  url :: string
  title :: "string option"
  device :: "string option"
  referrer :: "string option"
  ev_siteId :: "string option"
  ev_sessionId :: "string option"
  utm :: "(string \<times> string) list"
  ev_customDims :: "(string \<times> dim_value) list option"
  payload :: "json option"
  userAgent :: "string option"

text \<open>The object that \<open>flush\<close> serialises with \<open>JSON.stringify\<close>. The serialisation
  itself is not modelled: the transport carries the batch as it is. Payloads are finite
  trees here, so the case of a cyclic payload, on which \<open>JSON.stringify\<close> throws, does
  not arise.\<close>

record EventBatch =
  batch_siteId :: string
  batch_ts :: int
  events :: "TrackerEvent list"

section \<open>Transport: beacon, fetch with retries and exponential backoff\<close>

record Transport =
  endpoint :: string
  t_debug :: bool
  backoffBaseMs :: int
  maxAttempts :: int

text \<open>
  What the host answers. \<open>navigator.sendBeacon\<close> may be missing, may return a boolean
  or may throw. The \<open>n\<close>-th call of \<open>fetch\<close> (counted from 1, as \<open>attempt\<close> is after
  its increment) either resolves with a response that has a status, or rejects.
  \<open>Math.random()\<close> in the \<open>n\<close>-th backoff is a rational in \<open>[0, 1)\<close>; the
  rationals stand for the doubles of JavaScript.
\<close>

datatype beacon_host = BeaconMissing | BeaconReturns bool | BeaconThrows

datatype fetch_result = Response int | FetchRejects string

datatype send_error = HttpError int | NetworkError string

record net_host =
  beacon :: beacon_host
  fetch :: "nat \<Rightarrow> fetch_result"
  random :: "nat \<Rightarrow> rat"

text \<open>What \<open>send\<close> does to the outside, in order: a beacon call, a \<open>fetch\<close> call with
  its \<open>keepalive\<close> flag, a \<open>setTimeout\<close> wait with its argument in milliseconds.\<close>

datatype 'p io = SendBeacon 'p | Fetch 'p bool | Wait int

datatype outcome = Resolved | Rejected send_error

text \<open>\<open>res.ok\<close>: the status is in the range 200 to 299.\<close>

definition res_ok :: "int \<Rightarrow> bool" where
  "res_ok status \<longleftrightarrow> 200 \<le> status \<and> status \<le> 299"

text \<open>The error that the \<open>try\<close> block of one attempt throws, if any.\<close>

definition attempt_error :: "fetch_result \<Rightarrow> send_error option" where
  "attempt_error r =
     (case r of
        Response status \<Rightarrow> if res_ok status then None else Some (HttpError status)
      | FetchRejects e \<Rightarrow> Some (NetworkError e))"

text \<open>\<open>Math.round\<close>: the nearest integer, a tie going up.\<close>

definition js_round :: "rat \<Rightarrow> int" where
  "js_round x = \<lfloor>x + 1 / 2\<rfloor>"

text \<open>
  The \<open>while (attempt < this.maxAttempts)\<close> loop of \<open>send\<close>. \<open>attempt\<close> is the
  counter before the increment at the head of the body, \<open>delay\<close> the current backoff.
\<close>

function fetch_loop ::
  "Transport \<Rightarrow> net_host \<Rightarrow> 'p \<Rightarrow> bool \<Rightarrow> nat \<Rightarrow> int \<Rightarrow> 'p io list \<times> outcome" where
  "fetch_loop t h p sync attempt delay =
     (if int attempt < maxAttempts t then
        (case attempt_error (fetch h (Suc attempt)) of
           None \<Rightarrow> ([Fetch p sync], Resolved)
         | Some err \<Rightarrow>
             if int (Suc attempt) \<ge> maxAttempts t then ([Fetch p sync], Rejected err)
             else
               let jitter = js_round (random h (Suc attempt) * of_int delay);
                   (tr, out) = fetch_loop t h p sync (Suc attempt) (delay * 2)
               in (Fetch p sync # Wait (delay + jitter) # tr, out))
      else ([], Resolved))"
  by pat_completeness auto
termination
  by (relation "measure (\<lambda>(t, h, p, sync, attempt, delay). nat (maxAttempts t - int attempt))")
     auto

declare fetch_loop.simps [simp del]

text \<open>Whether the beacon branch of \<open>send\<close> returns early: sync mode, \<open>sendBeacon\<close> is a
  function, it does not throw and it returns true.\<close>

definition beacon_accepts :: "net_host \<Rightarrow> bool \<Rightarrow> bool" where
  "beacon_accepts h sync \<longleftrightarrow> sync \<and> beacon h = BeaconReturns True"

definition send :: "Transport \<Rightarrow> net_host \<Rightarrow> 'p \<Rightarrow> bool \<Rightarrow> 'p io list \<times> outcome" where
  "send t h p sync =
     (if sync \<and> beacon h \<noteq> BeaconMissing then
        (if beacon h = BeaconReturns True then ([SendBeacon p], Resolved)
         else
           let (tr, out) = fetch_loop t h p sync 0 (backoffBaseMs t)
           in (SendBeacon p # tr, out))
      else fetch_loop t h p sync 0 (backoffBaseMs t))"

section \<open>The host page\<close>

text \<open>
  What \<open>buildEvent\<close> reads from the page at the moment it is called: \<open>Date.now()\<close>,
  \<open>location.href\<close>, the query parameters of \<open>location.search\<close> (as
  \<open>URLSearchParams.get\<close> answers), \<open>document.title\<close>, \<open>document.referrer\<close> and
  \<open>navigator.userAgent\<close>. The code guards the strings with \<open>??\<close>, so each may be absent.
\<close>

record doc_host =
  clock :: int
  location_href :: "string option"
  search_param :: "string \<Rightarrow> string option"
  document_title :: "string option"
  document_referrer :: "string option"
  navigator_userAgent :: "string option"

text \<open>
  \<open>sessionStorage\<close> and \<open>uuidv4\<close>. Either storage call may throw (storage disabled, quota
  exceeded). \<open>uuid k\<close> is the string that the \<open>k\<close>-th call of \<open>uuidv4\<close> produces;
  \<open>uuid_calls\<close> counts the calls made so far.
\<close>

record session_host =
  storage :: "(string \<times> string) list"
  getItem_throws :: bool
  setItem_throws :: bool
  uuid :: "nat \<Rightarrow> string"
  uuid_calls :: nat

definition uuidv4 :: "session_host \<Rightarrow> string \<times> session_host" where
  "uuidv4 sh = (uuid sh (uuid_calls sh), sh\<lparr>uuid_calls := Suc (uuid_calls sh)\<rparr>)"

section \<open>The tracker\<close>

record Tracker =
  config :: TrackerConfig
  transport :: Transport
  queue :: "TrackerEvent list"
  timerId :: "int option"
  customDims :: "(string \<times> dim_value) list"
  hasConsent :: bool
  sessionId :: string
  startTs :: int
  heatmapBuffer :: "(int \<times> int \<times> int) list"
  scrollDepthReached :: "int list"
  consentListeners :: nat

text \<open>
  \<open>consentListeners\<close> counts how often \<open>initConsentListeners\<close> has attached its set of
  DOM listeners. The listeners themselves (clicks, scrolling, key presses, errors) produce
  raw events and are outside this development; \<open>heatmapBuffer\<close> and
  \<open>scrollDepthReached\<close> belong to them and no operation below writes them.
\<close>

subsection \<open>Public API: \<open>setSiteId\<close>, \<open>grantConsent\<close>, \<open>setCustomDimension\<close>\<close>

definition setSiteId :: "string \<Rightarrow> Tracker \<Rightarrow> Tracker" where
  "setSiteId sid s = (if sid = [] then s else s\<lparr>config := (config s)\<lparr>siteId := sid\<rparr>\<rparr>)"

definition session_key :: string where
  "session_key = ''analytics_session_v1''"

definition createOrRestoreSession :: "session_host \<Rightarrow> string \<times> session_host" where
  "createOrRestoreSession sh =
     (if getItem_throws sh then uuidv4 sh
      else
        (case map_of (storage sh) session_key of
           Some sid \<Rightarrow>
             if sid \<noteq> [] then (sid, sh)
             else
               let (fresh, sh1) = uuidv4 sh
               in if setItem_throws sh1 then uuidv4 sh1
                  else (fresh, sh1\<lparr>storage := AList.update session_key fresh (storage sh1)\<rparr>)
         | None \<Rightarrow>
             let (fresh, sh1) = uuidv4 sh
             in if setItem_throws sh1 then uuidv4 sh1
                else (fresh, sh1\<lparr>storage := AList.update session_key fresh (storage sh1)\<rparr>)))"

definition initConsentListeners :: "Tracker \<Rightarrow> Tracker" where
  "initConsentListeners s = s\<lparr>consentListeners := Suc (consentListeners s)\<rparr>"

definition grantConsent :: "Tracker \<times> session_host \<Rightarrow> Tracker \<times> session_host" where
  "grantConsent w =
     (case w of (s, sh) \<Rightarrow>
        if hasConsent s then (s, sh)
        else
          let (sid, sh') = createOrRestoreSession sh
          in (initConsentListeners (s\<lparr>hasConsent := True, sessionId := sid\<rparr>), sh'))"

definition setCustomDimension :: "string \<Rightarrow> dim_value \<Rightarrow> Tracker \<Rightarrow> Tracker" where
  "setCustomDimension name v s =
     (if name = [] then s else s\<lparr>customDims := AList.update name v (customDims s)\<rparr>)"

subsection \<open>\<open>parseUTM\<close> and \<open>buildEvent\<close>\<close>

definition utm_keys :: "string list" where
  "utm_keys = [''utm_source'', ''utm_medium'', ''utm_campaign'', ''utm_term'', ''utm_content'']"

definition parseUTM :: "doc_host \<Rightarrow> (string \<times> string) list" where
  "parseUTM h =
     concat (map (\<lambda>k. case search_param h k of
                        None \<Rightarrow> []
                      | Some v \<Rightarrow> if v = [] then [] else [(k, v)]) utm_keys)"

text \<open>The test \<open>/Mobi|Android/i.test(ua)\<close>: one of the two words occurs in the string,
  letters of the ASCII range compared without case.\<close>

definition ascii_lower :: "char \<Rightarrow> char" where
  "ascii_lower c =
     (let n = (of_char c :: nat) in if 65 \<le> n \<and> n \<le> 90 then char_of (n + 32) else c)"

fun starts_with :: "string \<Rightarrow> string \<Rightarrow> bool" where
  "starts_with [] s = True"
| "starts_with (p # ps) [] = False"
| "starts_with (p # ps) (c # cs) = (p = c \<and> starts_with ps cs)"

fun contains_str :: "string \<Rightarrow> string \<Rightarrow> bool" where
  "contains_str p [] = (p = [])"
| "contains_str p (c # cs) = (starts_with p (c # cs) \<or> contains_str p cs)"

definition is_mobile :: "string option \<Rightarrow> bool" where
  "is_mobile ua =
     (case ua of
        None \<Rightarrow> False
      | Some u \<Rightarrow>
          let l = map ascii_lower u
          in contains_str ''mobi'' l \<or> contains_str ''android'' l)"

text \<open>JavaScript's \<open>a || b\<close> on optional strings: \<open>a\<close> when it is a non-empty string,
  \<open>b\<close> otherwise.\<close>

definition js_or :: "string option \<Rightarrow> string option \<Rightarrow> string option" where
  "js_or a b = (case a of None \<Rightarrow> b | Some x \<Rightarrow> if x = [] then b else Some x)"

text \<open>\<open>x ?? ""\<close>.\<close>

definition or_empty :: "string option \<Rightarrow> string" where
  "or_empty a = (case a of None \<Rightarrow> [] | Some x \<Rightarrow> x)"

text \<open>The fields of \<open>Partial<BaseEvent>\<close> that \<open>buildEvent\<close> reads.\<close>

record overrides =
  o_url :: "string option"
  o_title :: "string option"
  o_referrer :: "string option"
  o_payload :: "json option"

definition no_overrides :: overrides where
  "no_overrides = \<lparr> o_url = None, o_title = None, o_referrer = None, o_payload = None \<rparr>"

definition nonempty :: "string \<Rightarrow> string option" where
  "nonempty x = (if x = [] then None else Some x)"

definition buildEvent :: "doc_host \<Rightarrow> Tracker \<Rightarrow> string \<Rightarrow> overrides \<Rightarrow> TrackerEvent" where
  "buildEvent h s kind ov =
     \<lparr> ev_type = kind,
       ts = clock h,
       url = or_empty (js_or (o_url ov) (Some (or_empty (location_href h)))),
       title = js_or (o_title ov) (document_title h),
       device = Some (if is_mobile (navigator_userAgent h) then ''mobile'' else ''web''),
       referrer = js_or (o_referrer ov) (document_referrer h),
       ev_siteId = nonempty (siteId (config s)),
       ev_sessionId = nonempty (sessionId s),
       utm = parseUTM h,
       ev_customDims = (if customDims s = [] then None else Some (customDims s)),
       payload = o_payload ov,
       userAgent = navigator_userAgent h \<rparr>"

subsection \<open>\<open>enqueue\<close> and \<open>flush\<close>\<close>

text \<open>
  \<open>flush\<close> is an \<open>async\<close> function with one suspension point, the \<open>await\<close> of
  \<open>transport.send\<close>. It is modelled in its two halves. \<open>flush_snapshot\<close> is the part that
  runs before the suspension: the two guards, the copy of the queue, the clearing of the
  queue and the construction of the batch; it returns the batch handed to the transport,
  if any. \<open>flush_settle\<close> is the part that runs when the promise of \<open>send\<close> settles:
  nothing on success, the \<open>catch\<close> block with \<open>unshift\<close> on failure.
\<close>

definition flush_snapshot :: "doc_host \<Rightarrow> Tracker \<Rightarrow> Tracker \<times> EventBatch option" where
  "flush_snapshot h s =
     (if queue s = [] then (s, None)
      else if siteId (config s) = [] then (s, None)
      else (s\<lparr>queue := []\<rparr>,
            Some \<lparr> batch_siteId = siteId (config s), batch_ts = clock h, events = queue s \<rparr>))"

definition flush_settle :: "EventBatch \<Rightarrow> outcome \<Rightarrow> Tracker \<Rightarrow> Tracker" where
  "flush_settle b out s =
     (case out of
        Resolved \<Rightarrow> s
      | Rejected err \<Rightarrow> s\<lparr>queue := events b @ queue s\<rparr>)"

text \<open>
  A whole call of \<open>flush\<close>. While \<open>send\<close> is suspended the single-threaded host runs
  other code of the tracker; \<open>during\<close> is what that code does to the tracker state
  between the snapshot and the settling of \<open>send\<close>. The result is the final tracker and
  what the transport did.
\<close>

definition flush ::
  "net_host \<Rightarrow> doc_host \<Rightarrow> bool \<Rightarrow> (Tracker \<Rightarrow> Tracker) \<Rightarrow> Tracker
     \<Rightarrow> Tracker \<times> EventBatch io list" where
  "flush n h sync during s =
     (case flush_snapshot h s of
        (s1, None) \<Rightarrow> (s1, [])
      | (s1, Some b) \<Rightarrow>
          (case send (transport s1) n b sync of
             (tr, out) \<Rightarrow> (flush_settle b out (during s1), tr)))"

text \<open>The consent test of \<open>enqueue\<close>: the kinds that pass without consent.\<close>

definition allowWithoutConsent :: "TrackerEvent \<Rightarrow> bool" where
  "allowWithoutConsent ev \<longleftrightarrow>
     ev_type ev = PAGE_VIEW \<or> ev_type ev = PERFORMANCE \<or> ev_type ev = ENGAGEMENT"

text \<open>\<open>if (this.sessionId) ev.sessionId = this.sessionId\<close>.\<close>

definition attach_session :: "Tracker \<Rightarrow> TrackerEvent \<Rightarrow> TrackerEvent" where
  "attach_session s ev = (if sessionId s = [] then ev else ev\<lparr>ev_sessionId := Some (sessionId s)\<rparr>)"

text \<open>
  \<open>enqueue\<close> returns the tracker and the batch of the flush it has started, if any:
  \<open>void this.flush(false)\<close> runs \<open>flush\<close> up to its suspension point and leaves the
  rest to the host.
  The host page \<open>h\<close> is read only by that flush, for the time stamp of the
  batch.
\<close>

definition enqueue :: "doc_host \<Rightarrow> Tracker \<Rightarrow> TrackerEvent \<Rightarrow> Tracker \<times> EventBatch option" where
  "enqueue h s ev =
     (if siteId (config s) = [] then (s, None)
      else if \<not> hasConsent s \<and> \<not> allowWithoutConsent ev then (s, None)
      else
        let s1 = s\<lparr>queue := queue s @ [attach_session s ev]\<rparr>
        in if int (length (queue s1)) \<ge> batchSize (config s1) then flush_snapshot h s1
           else (s1, None))"

subsection \<open>Public API: the \<open>track\<close> methods and \<open>flushNow\<close>\<close>

text \<open>The event that \<open>trackPage\<close> builds: the arguments, or else the location and the
  title of the document, go to \<open>buildEvent\<close> as overrides.\<close>

definition page_event ::
  "doc_host \<Rightarrow> string option \<Rightarrow> string option \<Rightarrow> Tracker \<Rightarrow> TrackerEvent" where
  "page_event h u t s =
     buildEvent h s PAGE_VIEW
       \<lparr> o_url = Some (or_empty (js_or u (Some (or_empty (location_href h))))),
         o_title = Some (or_empty (js_or t (Some (or_empty (document_title h))))),
         o_referrer = js_or (document_referrer h) None,
         o_payload = None \<rparr>"

definition trackPage ::
  "doc_host \<Rightarrow> string option \<Rightarrow> string option \<Rightarrow> Tracker \<Rightarrow> Tracker \<times> EventBatch option" where
  "trackPage h u t s = enqueue h s (page_event h u t s)"

definition opt_json :: "('a \<Rightarrow> json) \<Rightarrow> 'a option \<Rightarrow> json" where
  "opt_json f x = (case x of None \<Rightarrow> JUndefined | Some v \<Rightarrow> f v)"

definition trackEvent ::
  "doc_host \<Rightarrow> string \<Rightarrow> string \<Rightarrow> string option \<Rightarrow> int option \<Rightarrow> json option \<Rightarrow> Tracker
     \<Rightarrow> Tracker \<times> EventBatch option" where
  "trackEvent h category action label v extra s =
     enqueue h s
       (buildEvent h s CUSTOM
          (no_overrides\<lparr>o_payload := Some (JObj
             [(''category'', JStr category), (''action'', JStr action),
              (''label'', opt_json JStr label), (''value'', opt_json JNum v),
              (''extra'', opt_json id extra)])\<rparr>))"

definition trackEcommerce ::
  "doc_host \<Rightarrow> string \<Rightarrow> json \<Rightarrow> Tracker \<Rightarrow> Tracker \<times> EventBatch option" where
  "trackEcommerce h eventName data s =
     enqueue h s
       (buildEvent h s ECOMMERCE
          (no_overrides\<lparr>o_payload := Some (JObj
             [(''eventName'', JStr eventName), (''data'', data)])\<rparr>))"

definition trackGoal ::
  "doc_host \<Rightarrow> json \<Rightarrow> int option \<Rightarrow> json option \<Rightarrow> Tracker \<Rightarrow> Tracker \<times> EventBatch option" where
  "trackGoal h goalId revenue data s =
     enqueue h s
       (buildEvent h s GOAL
          (no_overrides\<lparr>o_payload := Some (JObj
             [(''goalId'', goalId), (''revenue'', opt_json JNum revenue),
              (''data'', opt_json id data)])\<rparr>))"

text \<open>\<open>flushNow\<close> is \<open>flush(false)\<close>; \<open>flush\<close> catches the failure of \<open>send\<close> itself, so
  the \<open>catch\<close> of \<open>flushNow\<close> never runs.\<close>

definition flushNow ::
  "net_host \<Rightarrow> doc_host \<Rightarrow> (Tracker \<Rightarrow> Tracker) \<Rightarrow> Tracker \<Rightarrow> Tracker \<times> EventBatch io list" where
  "flushNow n h during s = flush n h False during s"

subsection \<open>The constructor\<close>

definition new_Transport :: "TrackerConfig \<Rightarrow> Transport" where
  "new_Transport cfg =
     \<lparr> endpoint = collectionEndpoint cfg, t_debug = debug cfg,
       backoffBaseMs = retryBackoffBaseMs cfg, maxAttempts = retryMaxAttempts cfg \<rparr>"

text \<open>
  \<open>cfg\<close> is the merged configuration \<open>{ ...DEFAULTS, ...config }\<close>, \<open>timer\<close> the id that
  \<open>window.setInterval\<close> returns. \<open>initLightListeners\<close> tracks one page view at once.
\<close>

definition new_AnalyticsTracker ::
  "doc_host \<Rightarrow> int \<Rightarrow> TrackerConfig \<Rightarrow> Tracker \<times> EventBatch option" where
  "new_AnalyticsTracker h timer cfg =
     (let s0 = \<lparr> config = cfg, transport = new_Transport cfg, queue = [], timerId = None,
                 customDims = [], hasConsent = False, sessionId = [], startTs = clock h,
                 heatmapBuffer = [], scrollDepthReached = [], consentListeners = 0 \<rparr>;
          (s1, started) = trackPage h None None s0
      in (s1\<lparr>timerId := Some timer\<rparr>, started))"

subsection \<open>Runs of the tracker\<close>

text \<open>
  The operations that the host can run on a tracker, one at a time (the host is
  single-threaded): the public methods, a flush (from \<open>flushNow\<close>, the interval timer or
  the \<open>beforeunload\<close> listener), and the settling of a \<open>send\<close> that is in flight, with
  the outcome that the network gives it.
\<close>

datatype op =
    SetSiteId string
  | GrantConsent
  | SetCustomDimension string dim_value
  | TrackPage doc_host "string option" "string option"
  | TrackEvent doc_host string string "string option" "int option" "json option"
  | TrackEcommerce doc_host string json
  | TrackGoal doc_host json "int option" "json option"
  | Flush doc_host
  | Settle nat outcome

record world =
  tracker :: Tracker
  session :: session_host
  inflight :: "EventBatch list"

definition started_by :: "world \<Rightarrow> Tracker \<times> EventBatch option \<Rightarrow> world" where
  "started_by w r =
     (case r of
        (s, None) \<Rightarrow> w\<lparr>tracker := s\<rparr>
      | (s, Some b) \<Rightarrow> w\<lparr>tracker := s, inflight := inflight w @ [b]\<rparr>)"

fun step :: "world \<Rightarrow> op \<Rightarrow> world" where
  "step w (SetSiteId sid) = w\<lparr>tracker := setSiteId sid (tracker w)\<rparr>"
| "step w GrantConsent =
     (case grantConsent (tracker w, session w) of (s, sh) \<Rightarrow> w\<lparr>tracker := s, session := sh\<rparr>)"
| "step w (SetCustomDimension name v) = w\<lparr>tracker := setCustomDimension name v (tracker w)\<rparr>"
| "step w (TrackPage h u t) = started_by w (trackPage h u t (tracker w))"
| "step w (TrackEvent h c a l v e) = started_by w (trackEvent h c a l v e (tracker w))"
| "step w (TrackEcommerce h n d) = started_by w (trackEcommerce h n d (tracker w))"
| "step w (TrackGoal h g r d) = started_by w (trackGoal h g r d (tracker w))"
| "step w (Flush h) = started_by w (flush_snapshot h (tracker w))"
| "step w (Settle i out) =
     (if i < length (inflight w)
      then w\<lparr>tracker := flush_settle (inflight w ! i) out (tracker w),
             inflight := take i (inflight w) @ drop (Suc i) (inflight w)\<rparr>
      else w)"

definition run :: "world \<Rightarrow> op list \<Rightarrow> world" where
  "run w ops = foldl step w ops"

text \<open>Enqueuing a list of events one after the other, each at its own moment of the
  host page; the batches of the flushes that the calls have started, in order.\<close>

fun enqueue_all ::
  "Tracker \<Rightarrow> (doc_host \<times> TrackerEvent) list \<Rightarrow> Tracker \<times> EventBatch list" where
  "enqueue_all s [] = (s, [])"
| "enqueue_all s ((h, ev) # evs) =
     (case enqueue h s ev of
        (s1, started) \<Rightarrow>
          (case enqueue_all s1 evs of
             (s2, bs) \<Rightarrow> (s2, (case started of None \<Rightarrow> [] | Some b \<Rightarrow> [b]) @ bs)))"

text \<open>The batch that \<open>flush\<close> builds from a tracker at a moment of the host page.\<close>

definition batch_of :: "doc_host \<Rightarrow> Tracker \<Rightarrow> EventBatch" where
  "batch_of h s = \<lparr> batch_siteId = siteId (config s), batch_ts = clock h, events = queue s \<rparr>"

section \<open>Reading a transport trace\<close>

text \<open>The \<open>fetch\<close> calls of a trace, each with its body and its \<open>keepalive\<close> flag, and
  the arguments of its waits, both in the order of the trace.\<close>

fun fetch_calls :: "'p io list \<Rightarrow> ('p \<times> bool) list" where
  "fetch_calls [] = []"
| "fetch_calls (Fetch p k # tr) = (p, k) # fetch_calls tr"
| "fetch_calls (x # tr) = fetch_calls tr"

fun waits :: "'p io list \<Rightarrow> int list" where
  "waits [] = []"
| "waits (Wait ms # tr) = ms # waits tr"
| "waits (x # tr) = waits tr"

text \<open>
  The backoff as the specification words it: after failed attempt \<open>n\<close> (counted from 1)
  the delay is \<open>base * 2^(n-1)\<close>, and the wait is that delay plus the rounded jitter
  \<open>Math.random() * delay\<close>.
\<close>

definition spec_delay :: "int \<Rightarrow> nat \<Rightarrow> int" where
  "spec_delay base n = base * 2 ^ (n - 1)"

definition spec_wait :: "net_host \<Rightarrow> int \<Rightarrow> nat \<Rightarrow> int" where
  "spec_wait h base n = spec_delay base n + js_round (random h n * of_int (spec_delay base n))"

text \<open>A trace of retries: one \<open>fetch\<close>, then for each wait of \<open>ws\<close> that wait and one
  more \<open>fetch\<close>. It starts and ends with a \<open>fetch\<close>.\<close>

definition retry_trace :: "'p \<Rightarrow> bool \<Rightarrow> int list \<Rightarrow> 'p io list" where
  "retry_trace p sync ws = concat (map (\<lambda>w. [Fetch p sync, Wait w]) ws) @ [Fetch p sync]"

text \<open>The beacon call that \<open>send\<close> makes before the loop: in sync mode, when
  \<open>sendBeacon\<close> exists.\<close>

definition beacon_prefix :: "net_host \<Rightarrow> 'p \<Rightarrow> bool \<Rightarrow> 'p io list" where
  "beacon_prefix h p sync = (if sync \<and> beacon h \<noteq> BeaconMissing then [SendBeacon p] else [])"

section \<open>Example hosts and trackers\<close>

definition ex_doc :: doc_host where
  "ex_doc =
     \<lparr> clock = 1000, location_href = Some ''https://shop.example/cart?utm_source=news'',
       search_param = (\<lambda>k. if k = ''utm_source'' then Some ''news'' else None),
       document_title = Some ''Cart'', document_referrer = None,
       navigator_userAgent = Some ''Mozilla/5.0 (Linux; Android 14)'' \<rparr>"

definition ex_config :: "string \<Rightarrow> int \<Rightarrow> int \<Rightarrow> TrackerConfig" where
  "ex_config sid b m =
     (DEFAULTS ''https://collect.example/api'')
       \<lparr>siteId := sid, batchSize := b, retryBackoffBaseMs := 100, retryMaxAttempts := m\<rparr>"

definition ex_transport :: "int \<Rightarrow> Transport" where
  "ex_transport m = new_Transport (ex_config ''site-1'' 15 m)"

text \<open>A tracker as the constructor leaves it: with a site id, its queue holds the page
  view of \<open>initLightListeners\<close>.\<close>

definition ex_tracker :: "string \<Rightarrow> int \<Rightarrow> int \<Rightarrow> Tracker" where
  "ex_tracker sid b m = fst (new_AnalyticsTracker ex_doc 1 (ex_config sid b m))"

definition ex_doc_at :: "int \<Rightarrow> doc_host" where
  "ex_doc_at c = ex_doc\<lparr>clock := c\<rparr>"

text \<open>The page view that the constructor tracks on \<open>ex_doc\<close> for the site
  \<open>site-1\<close>.\<close>

definition ex_pageview :: TrackerEvent where
  "ex_pageview =
     \<lparr> ev_type = ''page_view'', ts = 1000,
       url = ''https://shop.example/cart?utm_source=news'', title = Some ''Cart'',
       device = Some ''mobile'', referrer = None, ev_siteId = Some ''site-1'',
       ev_sessionId = None, utm = [(''utm_source'', ''news'')], ev_customDims = None,
       payload = None, userAgent = Some ''Mozilla/5.0 (Linux; Android 14)'' \<rparr>"

definition ex_event :: "string \<Rightarrow> int \<Rightarrow> Tracker \<Rightarrow> doc_host \<times> TrackerEvent" where
  "ex_event kind c s = (ex_doc_at c, buildEvent (ex_doc_at c) s kind no_overrides)"

text \<open>A tracker constructed without a site id, which \<open>setSiteId\<close> then sets: its
  queue is empty.\<close>

definition ex_site :: "int \<Rightarrow> int \<Rightarrow> Tracker" where
  "ex_site b m = setSiteId ''site-1'' (ex_tracker [] b m)"

definition ex_session :: session_host where
  "ex_session =
     \<lparr> storage = [], getItem_throws = False, setItem_throws = False,
       uuid = (\<lambda>k. if k = 0 then ''11111111-1111-4111-8111-111111111111''
                    else ''22222222-2222-4222-8222-222222222222''),
       uuid_calls = 0 \<rparr>"

definition ex_click :: "Tracker \<Rightarrow> TrackerEvent" where
  "ex_click s =
     buildEvent ex_doc s CUSTOM
       (no_overrides\<lparr>o_payload := Some (JObj [(''category'', JStr ''Interaction''),
                                               (''action'', JStr ''click'')])\<rparr>)"

text \<open>Networks: one that fails twice (a status 503, a rejected \<open>fetch\<close>) and then
  answers 200, and one that never answers; \<open>Math.random()\<close> is one half throughout.\<close>

definition ex_net_recovers :: "beacon_host \<Rightarrow> net_host" where
  "ex_net_recovers b =
     \<lparr> beacon = b,
       fetch = (\<lambda>n. if n = 1 then Response 503 else if n = 2 then FetchRejects ''offline''
                     else Response 200),
       random = (\<lambda>n. 1 / 2) \<rparr>"

definition ex_net_down :: "beacon_host \<Rightarrow> net_host" where
  "ex_net_down b =
     \<lparr> beacon = b, fetch = (\<lambda>n. FetchRejects ''offline''), random = (\<lambda>n. 1 / 2) \<rparr>"

definition ex_net_up :: "beacon_host \<Rightarrow> net_host" where
  "ex_net_up b = \<lparr> beacon = b, fetch = (\<lambda>n. Response 200), random = (\<lambda>n. 1 / 2) \<rparr>"

text \<open>The tracker of the site \<open>site-1\<close> after \<open>grantConsent\<close>, on a session store that is
  empty and works.\<close>

definition ex_consented :: Tracker where
  "ex_consented = fst (grantConsent (ex_tracker ''site-1'' 15 4, ex_session))"



text \<open>Two flushes that overlap: the second starts while the \<open>send\<close> of the first is
  still in flight, the first then fails, and the second fails after it.\<close>

definition ex_world0 :: world where
  "ex_world0 = \<lparr> tracker = ex_tracker ''site-1'' 15 2, session = ex_session, inflight = [] \<rparr>"

definition ex_overlap :: "op list" where
  "ex_overlap =
     [Flush (ex_doc_at 5000), TrackPage (ex_doc_at 5100) None None, Flush (ex_doc_at 5200),
      Settle 0 (Rejected (NetworkError ''offline'')),
      Settle 0 (Rejected (NetworkError ''offline''))]"

section \<open>Properties of the transport\<close>

lemmas EventType_defs =
  PAGE_VIEW_def CUSTOM_def GOAL_def ECOMMERCE_def VISIBILITY_def FOCUS_def BLUR_def
  ENGAGEMENT_def PERFORMANCE_def HEATMAP_def RESOURCE_ERROR_def JS_ERROR_def

lemma js_round_bounds:
  assumes "0 \<le> r" "r < 1" "0 \<le> d"
  shows "0 \<le> js_round (r * of_int d) \<and> js_round (r * of_int d) \<le> d"
proof -
  have a: "0 \<le> r * of_int d" using assms by simp
  have b: "r * of_int d \<le> of_int d" using assms
    by (simp add: mult_left_le_one_le)
  have "0 \<le> \<lfloor>r * of_int d + 1 / 2\<rfloor>" using a by simp
  moreover have "r * of_int d + 1 / 2 < of_int (d + 1)" using b by simp
  then have "\<lfloor>r * of_int d + 1 / 2\<rfloor> < d + 1" by (simp only: floor_less_iff)
  ultimately show ?thesis by (simp add: js_round_def)
qed

lemma fetch_loop_done:
  "maxAttempts t \<le> int a \<Longrightarrow> fetch_loop t h p sync a d = ([], Resolved)"
  by (simp add: fetch_loop.simps)

lemma fetch_loop_success:
  "int a < maxAttempts t \<Longrightarrow> attempt_error (fetch h (Suc a)) = None
     \<Longrightarrow> fetch_loop t h p sync a d = ([Fetch p sync], Resolved)"
  by (simp add: fetch_loop.simps)

lemma fetch_loop_last:
  "int a < maxAttempts t \<Longrightarrow> attempt_error (fetch h (Suc a)) = Some e
     \<Longrightarrow> maxAttempts t \<le> int (Suc a)
     \<Longrightarrow> fetch_loop t h p sync a d = ([Fetch p sync], Rejected e)"
  by (simp add: fetch_loop.simps)

lemma fetch_loop_retry:
  "attempt_error (fetch h (Suc a)) = Some e \<Longrightarrow> int (Suc a) < maxAttempts t
     \<Longrightarrow> fetch_loop t h p sync a d =
           (Fetch p sync # Wait (d + js_round (random h (Suc a) * of_int d))
              # fst (fetch_loop t h p sync (Suc a) (d * 2)),
            snd (fetch_loop t h p sync (Suc a) (d * 2)))"
  by (subst fetch_loop.simps) (simp add: Let_def split: prod.splits)

lemma fetch_loop_cases:
  obtains (exhausted) "maxAttempts t \<le> int a" "fetch_loop t h p sync a d = ([], Resolved)"
  | (ok) "int a < maxAttempts t" "attempt_error (fetch h (Suc a)) = None"
         "fetch_loop t h p sync a d = ([Fetch p sync], Resolved)"
  | (last) e where "int a < maxAttempts t" "attempt_error (fetch h (Suc a)) = Some e"
         "maxAttempts t \<le> int (Suc a)" "fetch_loop t h p sync a d = ([Fetch p sync], Rejected e)"
  | (retry) e where "attempt_error (fetch h (Suc a)) = Some e" "int (Suc a) < maxAttempts t"
         "fetch_loop t h p sync a d =
           (Fetch p sync # Wait (d + js_round (random h (Suc a) * of_int d))
              # fst (fetch_loop t h p sync (Suc a) (d * 2)),
            snd (fetch_loop t h p sync (Suc a) (d * 2)))"
proof (cases "int a < maxAttempts t")
  case False
  then show ?thesis using exhausted fetch_loop_done [of t a h p sync d] by simp
next
  case lt: True
  show ?thesis
  proof (cases "attempt_error (fetch h (Suc a))")
    case None
    show ?thesis by (rule ok [OF lt None fetch_loop_success [OF lt None]])
  next
    case (Some e)
    show ?thesis
    proof (cases "maxAttempts t \<le> int (Suc a)")
      case True
      show ?thesis by (rule last [OF lt Some True fetch_loop_last [OF lt Some True]])
    next
      case False
      then have lt2: "int (Suc a) < maxAttempts t" by simp
      show ?thesis by (rule retry [OF Some lt2 fetch_loop_retry [OF Some lt2]])
    qed
  qed
qed

lemma fetch_loop_count:
  "length (fetch_calls (fst (fetch_loop t h p sync a d))) \<le> nat (maxAttempts t - int a)"
proof (induction "nat (maxAttempts t - int a)" arbitrary: a d)
  case 0
  then have "maxAttempts t \<le> int a" by simp
  then show ?case by (simp add: fetch_loop_done)
next
  case (Suc m)
  then have m: "m = nat (maxAttempts t - int (Suc a))" by simp
  show ?case
  proof (cases rule: fetch_loop_cases [of t a h p sync d])
    case exhausted
    then show ?thesis by simp
  next
    case ok
    then show ?thesis by simp
  next
    case (last e)
    then show ?thesis by simp
  next
    case (retry e)
    have "length (fetch_calls (fst (fetch_loop t h p sync (Suc a) (d * 2)))) \<le> m"
      using Suc.hyps(1) [OF m] m by simp
    then show ?thesis using retry Suc.hyps(2) by simp
  qed
qed

lemma fetch_loop_payload:
  "set (fetch_calls (fst (fetch_loop t h p sync a d))) \<subseteq> {(p, sync)}"
proof (induction "nat (maxAttempts t - int a)" arbitrary: a d)
  case 0
  then have "maxAttempts t \<le> int a" by simp
  then show ?case by (simp add: fetch_loop_done)
next
  case (Suc m)
  then have m: "m = nat (maxAttempts t - int (Suc a))" by simp
  show ?case
  proof (cases rule: fetch_loop_cases [of t a h p sync d])
    case (retry e)
    then show ?thesis using Suc.hyps(1) [OF m] by simp
  qed simp_all
qed

lemma fetch_loop_waits:
  "waits (fst (fetch_loop t h p sync a d)) =
     map (\<lambda>i. d * 2 ^ i + js_round (random h (Suc a + i) * of_int (d * 2 ^ i)))
       [0..<length (waits (fst (fetch_loop t h p sync a d)))]"
proof (induction "nat (maxAttempts t - int a)" arbitrary: a d)
  case 0
  then have "maxAttempts t \<le> int a" by simp
  then show ?case by (simp add: fetch_loop_done)
next
  case (Suc m)
  then have m: "m = nat (maxAttempts t - int (Suc a))" by simp
  show ?case
  proof (cases rule: fetch_loop_cases [of t a h p sync d])
    case (retry e)
    let ?r = "fst (fetch_loop t h p sync (Suc a) (d * 2))"
    have ih: "waits ?r = map (\<lambda>i. d * 2 * 2 ^ i + js_round (random h (Suc (Suc a) + i) * of_int (d * 2 * 2 ^ i)))
       [0..<length (waits ?r)]"
      using Suc.hyps(1) [OF m] .
    have "waits (fst (fetch_loop t h p sync a d)) = (d + js_round (random h (Suc a) * of_int d)) # waits ?r"
      using retry by simp
    also have "\<dots> = map (\<lambda>i. d * 2 ^ i + js_round (random h (Suc a + i) * of_int (d * 2 ^ i)))
       [0..<Suc (length (waits ?r))]"
      by (subst ih) (simp add: map_upt_Suc del: upt_Suc  add: mult.assoc)
    finally show ?thesis using retry by simp
  qed simp_all
qed


lemma fetch_loop_failures:
  assumes "\<forall>i. a < i \<and> i \<le> a + k \<longrightarrow> attempt_error (fetch h i) \<noteq> None"
      and "int (a + k) < maxAttempts t"
  shows "fetch_loop t h p sync a d =
           (concat (map (\<lambda>i. [Fetch p sync,
                                Wait (d * 2 ^ i + js_round (random h (Suc a + i) * of_int (d * 2 ^ i)))])
                        [0..<k])
              @ fst (fetch_loop t h p sync (a + k) (d * 2 ^ k)),
            snd (fetch_loop t h p sync (a + k) (d * 2 ^ k)))"
  using assms
proof (induction k arbitrary: a d)
  case 0
  then show ?case by simp
next
  case (Suc k)
  from Suc.prems(1) obtain e where e: "attempt_error (fetch h (Suc a)) = Some e"
    by (cases "attempt_error (fetch h (Suc a))") auto
  have lt: "int (Suc a) < maxAttempts t" using Suc.prems(2) by simp
  have ih: "fetch_loop t h p sync (Suc a) (d * 2) =
           (concat (map (\<lambda>i. [Fetch p sync,
                                Wait (d * 2 * 2 ^ i + js_round (random h (Suc (Suc a) + i) * of_int (d * 2 * 2 ^ i)))])
                        [0..<k])
              @ fst (fetch_loop t h p sync (Suc a + k) (d * 2 * 2 ^ k)),
            snd (fetch_loop t h p sync (Suc a + k) (d * 2 * 2 ^ k)))"
    using Suc.prems by (intro Suc.IH) auto
  show ?case
    by (subst fetch_loop_retry [OF e lt], subst (1 2) ih)
       (simp add: map_upt_Suc mult.assoc del: upt_Suc)
qed

lemma spec_wait_Suc:
  "spec_wait h base (Suc i) = base * 2 ^ i + js_round (random h (Suc i) * of_int (base * 2 ^ i))"
  by (simp add: spec_wait_def spec_delay_def)

lemma fetch_loop_failures_0:
  assumes "\<forall>n. 1 \<le> n \<and> n \<le> k \<longrightarrow> attempt_error (fetch h n) \<noteq> None"
      and "int k < maxAttempts t"
  shows "fetch_loop t h p sync 0 base =
           (concat (map (\<lambda>w. [Fetch p sync, Wait w]) (map (spec_wait h base) [1..<Suc k]))
              @ fst (fetch_loop t h p sync k (base * 2 ^ k)),
            snd (fetch_loop t h p sync k (base * 2 ^ k)))"
proof -
  have a: "\<forall>i. 0 < i \<and> i \<le> 0 + k \<longrightarrow> attempt_error (fetch h i) \<noteq> None"
    using assms(1) by auto
  have u: "[1..<Suc k] = map Suc [0..<k]"
    by (simp add: map_Suc_upt del: upt_Suc)
  have m: "map (\<lambda>w. [Fetch p sync, Wait w]) (map (spec_wait h base) [1..<Suc k]) =
           map (\<lambda>i. [Fetch p sync,
                      Wait (base * 2 ^ i + js_round (random h (Suc 0 + i) * of_int (base * 2 ^ i)))])
               [0..<k]"
    unfolding u by (simp add: spec_wait_Suc comp_def del: upt_Suc)
  show ?thesis
    unfolding m using fetch_loop_failures [OF a, of t p sync base] assms(2)
    by (simp del: upt_Suc)
qed

lemma fetch_loop_recovers:
  assumes "\<forall>n. 1 \<le> n \<and> n \<le> k \<longrightarrow> attempt_error (fetch h n) \<noteq> None"
      and "attempt_error (fetch h (Suc k)) = None"
      and "int k < maxAttempts t"
  shows "fetch_loop t h p sync 0 base =
           (retry_trace p sync (map (spec_wait h base) [1..<Suc k]), Resolved)"
  using fetch_loop_failures_0 [OF assms(1,3), of p sync base]
        fetch_loop_success [OF assms(3,2), of p sync "base * 2 ^ k"]
  by (simp add: retry_trace_def del: upt_Suc)

lemma fetch_loop_gives_up:
  assumes "\<forall>n. 1 \<le> n \<and> n \<le> nat (maxAttempts t) \<longrightarrow> attempt_error (fetch h n) \<noteq> None"
      and "1 \<le> maxAttempts t"
  shows "\<exists>e. attempt_error (fetch h (nat (maxAttempts t))) = Some e \<and>
             fetch_loop t h p sync 0 base =
               (retry_trace p sync (map (spec_wait h base) [1..<nat (maxAttempts t)]), Rejected e)"
proof -
  obtain k where k: "nat (maxAttempts t) = Suc k"
    using assms(2) by (cases "nat (maxAttempts t)") auto
  then have mk: "maxAttempts t = int (Suc k)" using assms(2) by linarith
  from assms(1) k obtain e where e: "attempt_error (fetch h (Suc k)) = Some e"
    by (cases "attempt_error (fetch h (Suc k))") auto
  have f: "\<forall>n. 1 \<le> n \<and> n \<le> k \<longrightarrow> attempt_error (fetch h n) \<noteq> None"
    using assms(1) k by auto
  have lt: "int k < maxAttempts t" using mk by simp
  have le: "maxAttempts t \<le> int (Suc k)" using mk by simp
  show ?thesis
    using fetch_loop_failures_0 [OF f lt, of p sync base]
          fetch_loop_last [OF lt e le, of p sync "base * 2 ^ k"] e k
    by (simp add: retry_trace_def del: upt_Suc)
qed

lemma fetch_loop_rejected:
  assumes "snd (fetch_loop t h p sync a d) = Rejected e"
  shows "int a < maxAttempts t \<and> attempt_error (fetch h (nat (maxAttempts t))) = Some e \<and>
         length (fetch_calls (fst (fetch_loop t h p sync a d))) = nat (maxAttempts t) - a"
  using assms
proof (induction "nat (maxAttempts t - int a)" arbitrary: a d)
  case 0
  then have "maxAttempts t \<le> int a" by simp
  then show ?case using "0.prems" by (simp add: fetch_loop_done)
next
  case (Suc m)
  then have m: "m = nat (maxAttempts t - int (Suc a))" by simp
  show ?case
  proof (cases rule: fetch_loop_cases [of t a h p sync d])
    case exhausted
    then show ?thesis using Suc.prems by simp
  next
    case ok
    then show ?thesis using Suc.prems by simp
  next
    case (last e')
    then have "maxAttempts t = int (Suc a)" by simp
    then have "nat (maxAttempts t) = Suc a" by simp
    then show ?thesis using last Suc.prems by simp
  next
    case (retry e')
    have "snd (fetch_loop t h p sync (Suc a) (d * 2)) = Rejected e"
      using retry Suc.prems by simp
    from Suc.hyps(1) [OF m this] show ?thesis using retry by auto
  qed
qed

lemma waits_bounds:
  assumes "\<forall>n. 0 \<le> random h n \<and> random h n < 1" and "0 \<le> d"
      and "i < length (waits (fst (fetch_loop t h p sync a d)))"
  shows "\<exists>j. 0 \<le> j \<and> j \<le> d * 2 ^ i \<and>
             waits (fst (fetch_loop t h p sync a d)) ! i = d * 2 ^ i + j"
proof -
  let ?j = "js_round (random h (Suc a + i) * of_int (d * 2 ^ i))"
  have "0 \<le> d * 2 ^ i" using assms(2) by simp
  then have "0 \<le> ?j \<and> ?j \<le> d * 2 ^ i"
    using assms(1) js_round_bounds by blast
  moreover have "waits (fst (fetch_loop t h p sync a d)) ! i = d * 2 ^ i + ?j"
    using assms(3) by (subst fetch_loop_waits) simp
  ultimately show ?thesis by blast
qed

lemma waits_sorted:
  assumes "\<forall>n. 0 \<le> random h n \<and> random h n < 1" and "0 \<le> d"
  shows "sorted (waits (fst (fetch_loop t h p sync a d)))"
proof -
  let ?w = "waits (fst (fetch_loop t h p sync a d))"
  have "?w ! i \<le> ?w ! j" if le: "i \<le> j" and jl: "j < length ?w" for i j
  proof (cases "i = j")
    case True
    then show ?thesis by simp
  next
    case False
    with le jl have ij: "Suc i \<le> j" "i < length ?w" by auto
    obtain x where x: "0 \<le> x" "x \<le> d * 2 ^ i" "?w ! i = d * 2 ^ i + x"
      using waits_bounds [OF assms ij(2)] by blast
    obtain y where y: "0 \<le> y" "y \<le> d * 2 ^ j" "?w ! j = d * 2 ^ j + y"
      using waits_bounds [OF assms jl] by blast
    have "(2::int) ^ Suc i \<le> 2 ^ j" using ij(1) by (intro power_increasing) auto
    then have "d * 2 ^ Suc i \<le> d * 2 ^ j" using assms(2) by (intro mult_left_mono) auto
    then show ?thesis using x y by simp
  qed
  then show ?thesis by (simp add: sorted_iff_nth_mono)
qed

lemma fetch_calls_append: "fetch_calls (xs @ ys) = fetch_calls xs @ fetch_calls ys"
  by (induction xs rule: fetch_calls.induct) simp_all

lemma waits_append: "waits (xs @ ys) = waits xs @ waits ys"
  by (induction xs rule: waits.induct) simp_all

lemma send_eq:
  "send t h p sync =
     (if beacon_accepts h sync then ([SendBeacon p], Resolved)
      else (beacon_prefix h p sync @ fst (fetch_loop t h p sync 0 (backoffBaseMs t)),
            snd (fetch_loop t h p sync 0 (backoffBaseMs t))))"
  by (auto simp: send_def beacon_accepts_def beacon_prefix_def split: prod.splits)

lemma send_fetch_calls:
  "fetch_calls (fst (send t h p sync)) =
     (if beacon_accepts h sync then []
      else fetch_calls (fst (fetch_loop t h p sync 0 (backoffBaseMs t))))"
  by (simp add: send_eq beacon_prefix_def fetch_calls_append)

lemma send_waits:
  "waits (fst (send t h p sync)) =
     (if beacon_accepts h sync then []
      else waits (fst (fetch_loop t h p sync 0 (backoffBaseMs t))))"
  by (simp add: send_eq beacon_prefix_def waits_append)

lemma spec_wait_bounds:
  assumes "\<forall>n. 0 \<le> random h n \<and> random h n < 1" and "0 \<le> base"
  shows "spec_delay base n \<le> spec_wait h base n \<and> spec_wait h base n \<le> 2 * spec_delay base n"
proof -
  have "0 \<le> spec_delay base n" using assms(2) by (simp add: spec_delay_def)
  then have "0 \<le> js_round (random h n * of_int (spec_delay base n)) \<and>
             js_round (random h n * of_int (spec_delay base n)) \<le> spec_delay base n"
    using assms(1) js_round_bounds by blast
  then show ?thesis by (simp add: spec_wait_def)
qed

lemma send_waits_spec:
  "waits (fst (send t h p sync)) =
     map (spec_wait h (backoffBaseMs t)) [1..<Suc (length (waits (fst (send t h p sync))))]"
proof (cases "beacon_accepts h sync")
  case True
  then show ?thesis by (simp add: send_waits)
next
  case False
  let ?w = "waits (fst (fetch_loop t h p sync 0 (backoffBaseMs t)))"
  have u: "[1..<Suc (length ?w)] = map Suc [0..<length ?w]"
    by (simp add: map_Suc_upt del: upt_Suc)
  have "?w = map (spec_wait h (backoffBaseMs t)) [1..<Suc (length ?w)]"
    unfolding u by (subst fetch_loop_waits) (simp add: spec_wait_Suc comp_def del: upt_Suc)
  then show ?thesis using False by (simp add: send_waits del: upt_Suc)
qed

text \<open>
  C4. \<open>send\<close> calls \<open>fetch\<close> at most \<open>retryMaxAttempts\<close> times, always with the body
  it was given. The waits of a call are, in order, the waits of the specification: the
  wait after failed attempt \<open>n\<close> is \<open>backoffBaseMs * 2^(n-1)\<close> plus a jitter between 0
  and that delay, so the waits never decrease, and no wait comes before the first attempt.
  When the first \<open>k\<close> attempts fail and attempt \<open>k+1\<close> succeeds, \<open>send\<close> resolves after
  \<open>k+1\<close> calls of \<open>fetch\<close> with \<open>k\<close> waits between them; when all
  \<open>retryMaxAttempts\<close> attempts fail, \<open>send\<close> rejects with the error of the last attempt.
  \<open>Math.random\<close> is taken in \<open>[0, 1)\<close>; how its values are distributed is not part of
  the model.
\<close>

theorem send_retry_backoff:
  assumes rnd: "\<forall>n. 0 \<le> random h n \<and> random h n < 1"
      and base: "0 \<le> backoffBaseMs t"
      and m: "1 \<le> maxAttempts t"
  shows "int (length (fetch_calls (fst (send t h p sync)))) \<le> maxAttempts t \<and>
         set (fetch_calls (fst (send t h p sync))) \<subseteq> {(p, sync)} \<and>
         waits (fst (send t h p sync)) =
           map (spec_wait h (backoffBaseMs t)) [1..<Suc (length (waits (fst (send t h p sync))))] \<and>
         (\<forall>n. spec_delay (backoffBaseMs t) n \<le> spec_wait h (backoffBaseMs t) n \<and>
              spec_wait h (backoffBaseMs t) n \<le> 2 * spec_delay (backoffBaseMs t) n) \<and>
         sorted (waits (fst (send t h p sync))) \<and>
         (\<forall>k. \<not> beacon_accepts h sync \<and> int k < maxAttempts t \<and>
              (\<forall>n. 1 \<le> n \<and> n \<le> k \<longrightarrow> attempt_error (fetch h n) \<noteq> None) \<and>
              attempt_error (fetch h (Suc k)) = None \<longrightarrow>
              send t h p sync =
                (beacon_prefix h p sync @
                   retry_trace p sync (map (spec_wait h (backoffBaseMs t)) [1..<Suc k]),
                 Resolved)) \<and>
         (\<not> beacon_accepts h sync \<and>
          (\<forall>n. 1 \<le> n \<and> n \<le> nat (maxAttempts t) \<longrightarrow> attempt_error (fetch h n) \<noteq> None) \<longrightarrow>
          (\<exists>e. attempt_error (fetch h (nat (maxAttempts t))) = Some e \<and>
               send t h p sync =
                 (beacon_prefix h p sync @
                    retry_trace p sync
                      (map (spec_wait h (backoffBaseMs t)) [1..<nat (maxAttempts t)]),
                  Rejected e)))"
proof -
  let ?L = "fetch_loop t h p sync 0 (backoffBaseMs t)"
  have c1: "int (length (fetch_calls (fst (send t h p sync)))) \<le> maxAttempts t"
    using fetch_loop_count [of t h p sync 0 "backoffBaseMs t"] m
    by (auto simp: send_fetch_calls)
  have c2: "set (fetch_calls (fst (send t h p sync))) \<subseteq> {(p, sync)}"
    using fetch_loop_payload [of t h p sync 0 "backoffBaseMs t"]
    by (simp add: send_fetch_calls)
  have c3: "waits (fst (send t h p sync)) =
           map (spec_wait h (backoffBaseMs t)) [1..<Suc (length (waits (fst (send t h p sync))))]"
    by (rule send_waits_spec)
  have c4: "\<forall>n. spec_delay (backoffBaseMs t) n \<le> spec_wait h (backoffBaseMs t) n \<and>
              spec_wait h (backoffBaseMs t) n \<le> 2 * spec_delay (backoffBaseMs t) n"
    using spec_wait_bounds [OF rnd base] by blast
  have c5: "sorted (waits (fst (send t h p sync)))"
    using waits_sorted [OF rnd base, of t p sync 0] by (simp add: send_waits)
  have c6: "send t h p sync =
                (beacon_prefix h p sync @
                   retry_trace p sync (map (spec_wait h (backoffBaseMs t)) [1..<Suc k]),
                 Resolved)"
    if "\<not> beacon_accepts h sync" "int k < maxAttempts t"
       "\<forall>n. 1 \<le> n \<and> n \<le> k \<longrightarrow> attempt_error (fetch h n) \<noteq> None"
       "attempt_error (fetch h (Suc k)) = None" for k
    using fetch_loop_recovers [OF that(3,4,2), of p sync "backoffBaseMs t"] that(1)
    by (simp add: send_eq del: upt_Suc)
  have c7: "\<exists>e. attempt_error (fetch h (nat (maxAttempts t))) = Some e \<and>
               send t h p sync =
                 (beacon_prefix h p sync @
                    retry_trace p sync
                      (map (spec_wait h (backoffBaseMs t)) [1..<nat (maxAttempts t)]),
                  Rejected e)"
    if "\<not> beacon_accepts h sync"
       "\<forall>n. 1 \<le> n \<and> n \<le> nat (maxAttempts t) \<longrightarrow> attempt_error (fetch h n) \<noteq> None"
    using fetch_loop_gives_up [OF that(2) m, of p sync "backoffBaseMs t"] that(1)
    by (auto simp: send_eq simp del: upt_Suc)
  from c1 c2 c3 c4 c5 c6 c7 show ?thesis by blast
qed

theorem send_retry_backoff_witness:
  "(\<forall>n. 0 \<le> random (ex_net_recovers BeaconMissing) n \<and> random (ex_net_recovers BeaconMissing) n < 1) \<and>
   0 \<le> backoffBaseMs (ex_transport 3) \<and> 1 \<le> maxAttempts (ex_transport 3) \<and>
   send (ex_transport 3) (ex_net_recovers BeaconMissing) ''body'' False =
     ([Fetch ''body'' False, Wait 150, Fetch ''body'' False, Wait 300, Fetch ''body'' False],
      Resolved) \<and>
   send (ex_transport 3) (ex_net_down (BeaconReturns False)) ''body'' True =
     ([SendBeacon ''body'', Fetch ''body'' True, Wait 150, Fetch ''body'' True, Wait 300,
       Fetch ''body'' True],
      Rejected (NetworkError ''offline''))"
proof -
  let ?t = "ex_transport 3"
  let ?h = "ex_net_recovers BeaconMissing"
  let ?d = "ex_net_down (BeaconReturns False)"
  have t: "backoffBaseMs ?t = 100" "maxAttempts ?t = 3"
    by (simp_all add: ex_transport_def new_Transport_def ex_config_def DEFAULTS_def)
  have r1: "\<forall>n. 0 \<le> random ?h n \<and> random ?h n < 1" by (simp add: ex_net_recovers_def)
  have r2: "\<forall>n. 0 \<le> random ?d n \<and> random ?d n < 1" by (simp add: ex_net_down_def)
  have b: "0 \<le> backoffBaseMs ?t" and m: "1 \<le> maxAttempts ?t" by (simp_all add: t)
  have w: "spec_wait ?h 100 (Suc 0) = 150" "spec_wait ?h 100 2 = 300"
          "spec_wait ?d 100 (Suc 0) = 150" "spec_wait ?d 100 2 = 300"
    by (simp_all add: spec_wait_def spec_delay_def js_round_def ex_net_recovers_def ex_net_down_def
                      floor_eq_iff)
  have u: "[Suc 0..<3] = [Suc 0, 2]" by code_simp
  have bp: "beacon_prefix ?h ''body'' False = []"
           "beacon_prefix ?d ''body'' True = [SendBeacon ''body'']"
    by (simp_all add: beacon_prefix_def ex_net_down_def)
  have f: "\<not> beacon_accepts ?h False \<and> int 2 < maxAttempts ?t \<and>
        (\<forall>n. 1 \<le> n \<and> n \<le> 2 \<longrightarrow> attempt_error (fetch ?h n) \<noteq> None) \<and>
        attempt_error (fetch ?h (Suc 2)) = None"
    by (auto simp: t beacon_accepts_def ex_net_recovers_def attempt_error_def res_ok_def)
  have g: "\<not> beacon_accepts ?d True \<and>
        (\<forall>n. 1 \<le> n \<and> n \<le> nat (maxAttempts ?t) \<longrightarrow> attempt_error (fetch ?d n) \<noteq> None)"
    by (simp add: t beacon_accepts_def ex_net_down_def attempt_error_def)
  have e: "attempt_error (fetch ?d (nat 3)) = Some (NetworkError ''offline'')"
    by (simp add: ex_net_down_def attempt_error_def)
  have "send ?t ?h ''body'' False =
          (beacon_prefix ?h ''body'' False @
             retry_trace ''body'' False (map (spec_wait ?h (backoffBaseMs ?t)) [1..<Suc 2]),
           Resolved)"
    using send_retry_backoff [OF r1 b m, of "''body''" False] f by blast
  then have s1: "send ?t ?h ''body'' False =
     ([Fetch ''body'' False, Wait 150, Fetch ''body'' False, Wait 300, Fetch ''body'' False],
      Resolved)"
    by (simp add: t u w bp retry_trace_def del: upt_Suc)
  have "\<exists>e. attempt_error (fetch ?d (nat (maxAttempts ?t))) = Some e \<and>
          send ?t ?d ''body'' True =
            (beacon_prefix ?d ''body'' True @
               retry_trace ''body'' True
                 (map (spec_wait ?d (backoffBaseMs ?t)) [1..<nat (maxAttempts ?t)]),
             Rejected e)"
    using send_retry_backoff [OF r2 b m, of "''body''" True] g by blast
  then have s2: "send ?t ?d ''body'' True =
     ([SendBeacon ''body'', Fetch ''body'' True, Wait 150, Fetch ''body'' True, Wait 300,
       Fetch ''body'' True],
      Rejected (NetworkError ''offline''))"
    using e by (auto simp add: t u w bp retry_trace_def simp del: upt_Suc)
  from r1 b m s1 s2 show ?thesis by blast
qed

section \<open>The example hosts and trackers, evaluated\<close>

lemma ex_mobile: "is_mobile (Some ''Mozilla/5.0 (Linux; Android 14)'')"
  by code_simp

lemma ex_buildEvent:
  "buildEvent (ex_doc_at c) s kind ov =
     \<lparr> ev_type = kind, ts = c,
       url = or_empty (js_or (o_url ov) (Some ''https://shop.example/cart?utm_source=news'')),
       title = js_or (o_title ov) (Some ''Cart''),
       device = Some ''mobile'', referrer = js_or (o_referrer ov) None,
       ev_siteId = nonempty (siteId (config s)), ev_sessionId = nonempty (sessionId s),
       utm = [(''utm_source'', ''news'')],
       ev_customDims = (if customDims s = [] then None else Some (customDims s)),
       payload = o_payload ov, userAgent = Some ''Mozilla/5.0 (Linux; Android 14)'' \<rparr>"
  by (simp add: buildEvent_def ex_doc_at_def ex_doc_def or_empty_def parseUTM_def utm_keys_def
                ex_mobile)

lemma ex_doc_at_1000: "ex_doc = ex_doc_at 1000"
  by (simp add: ex_doc_at_def ex_doc_def)

lemma ex_tracker_unset:
  "ex_tracker [] b m =
     \<lparr> config = ex_config [] b m, transport = new_Transport (ex_config [] b m), queue = [],
       timerId = Some 1, customDims = [], hasConsent = False, sessionId = [], startTs = 1000,
       heatmapBuffer = [], scrollDepthReached = [], consentListeners = 0 \<rparr>"
  by (simp add: ex_tracker_def new_AnalyticsTracker_def trackPage_def page_event_def enqueue_def
                ex_config_def DEFAULTS_def ex_doc_def)

lemma ex_tracker_site1:
  "1 < b \<Longrightarrow> ex_tracker ''site-1'' b m =
     \<lparr> config = ex_config ''site-1'' b m, transport = new_Transport (ex_config ''site-1'' b m),
       queue = [ex_pageview],
       timerId = Some 1, customDims = [], hasConsent = False, sessionId = [], startTs = 1000,
       heatmapBuffer = [], scrollDepthReached = [], consentListeners = 0 \<rparr>"
  unfolding ex_tracker_def new_AnalyticsTracker_def trackPage_def page_event_def ex_doc_at_1000 ex_buildEvent
  by (simp add: enqueue_def ex_config_def DEFAULTS_def allowWithoutConsent_def PAGE_VIEW_def
                ex_pageview_def attach_session_def ex_doc_at_def ex_doc_def js_or_def
                or_empty_def nonempty_def)


lemma ex_site_eq:
  "ex_site b m =
     \<lparr> config = ex_config ''site-1'' b m, transport = new_Transport (ex_config [] b m), queue = [],
       timerId = Some 1, customDims = [], hasConsent = False, sessionId = [], startTs = 1000,
       heatmapBuffer = [], scrollDepthReached = [], consentListeners = 0 \<rparr>"
  by (simp add: ex_site_def setSiteId_def ex_tracker_unset ex_config_def)

lemma ex_consented_eq:
  "ex_consented =
     \<lparr> config = ex_config ''site-1'' 15 4, transport = new_Transport (ex_config ''site-1'' 15 4),
       queue = [ex_pageview], timerId = Some 1, customDims = [], hasConsent = True,
       sessionId = ''11111111-1111-4111-8111-111111111111'', startTs = 1000,
       heatmapBuffer = [], scrollDepthReached = [], consentListeners = 1 \<rparr>"
  by (simp add: ex_consented_def ex_tracker_site1 grantConsent_def createOrRestoreSession_def
                ex_session_def uuidv4_def initConsentListeners_def session_key_def)

lemma ex_send_down:
  "send (new_Transport (ex_config sid b 2)) (ex_net_down bh) p False =
     ([Fetch p False, Wait 150, Fetch p False], Rejected (NetworkError ''offline''))"
  by (simp add: send_def fetch_loop.simps new_Transport_def ex_config_def DEFAULTS_def
                ex_net_down_def attempt_error_def js_round_def floor_eq_iff)

lemma ex_send_down_sync:
  "send (new_Transport (ex_config sid b 2)) (ex_net_down (BeaconReturns False)) p True =
     ([SendBeacon p, Fetch p True, Wait 150, Fetch p True], Rejected (NetworkError ''offline''))"
  by (simp add: send_def fetch_loop.simps new_Transport_def ex_config_def DEFAULTS_def
                ex_net_down_def attempt_error_def js_round_def floor_eq_iff)

lemma ex_page_event:
  "page_event (ex_doc_at c) None None s =
     \<lparr> ev_type = ''page_view'', ts = c,
       url = ''https://shop.example/cart?utm_source=news'', title = Some ''Cart'',
       device = Some ''mobile'', referrer = None,
       ev_siteId = nonempty (siteId (config s)), ev_sessionId = nonempty (sessionId s),
       utm = [(''utm_source'', ''news'')],
       ev_customDims = (if customDims s = [] then None else Some (customDims s)),
       payload = None, userAgent = Some ''Mozilla/5.0 (Linux; Android 14)'' \<rparr>"
  unfolding page_event_def ex_buildEvent
  by (simp add: PAGE_VIEW_def js_or_def or_empty_def ex_doc_at_def ex_doc_def)

section \<open>Admission\<close>

lemma enqueue_admitted:
  assumes "siteId (config s) \<noteq> []" and "hasConsent s \<or> allowWithoutConsent ev"
  shows "enqueue h s ev =
           (if int (length (queue s)) + 1 \<ge> batchSize (config s)
            then (s\<lparr>queue := []\<rparr>,
                  Some \<lparr> batch_siteId = siteId (config s), batch_ts = clock h,
                         events = queue s @ [attach_session s ev] \<rparr>)
            else (s\<lparr>queue := queue s @ [attach_session s ev]\<rparr>, None))"
  using assms by (auto simp: enqueue_def flush_snapshot_def Let_def)

lemma flush_snapshot_some:
  "queue s \<noteq> [] \<Longrightarrow> siteId (config s) \<noteq> [] \<Longrightarrow>
     flush_snapshot h s = (s\<lparr>queue := []\<rparr>, Some (batch_of h s))"
  by (simp add: flush_snapshot_def batch_of_def)

lemma flush_snapshot_none:
  "queue s = [] \<or> siteId (config s) = [] \<Longrightarrow> flush_snapshot h s = (s, None)"
  by (auto simp: flush_snapshot_def)

lemma flush_started:
  assumes "queue s \<noteq> []" and "siteId (config s) \<noteq> []"
  shows "flush n h sync during s =
           (flush_settle (batch_of h s) (snd (send (transport s) n (batch_of h s) sync))
              (during (s\<lparr>queue := []\<rparr>)),
            fst (send (transport s) n (batch_of h s) sync))"
  using assms by (simp add: flush_def flush_snapshot_some split: prod.splits)

lemma flush_rejected:
  assumes "queue s \<noteq> []" and "siteId (config s) \<noteq> []"
      and "snd (send (transport s) n (batch_of h s) sync) = Rejected e"
  shows "fst (flush n h sync during s) =
           (during (s\<lparr>queue := []\<rparr>))\<lparr>queue := queue s @ queue (during (s\<lparr>queue := []\<rparr>))\<rparr>"
  using assms by (simp add: flush_started flush_settle_def batch_of_def)

lemma flush_resolved:
  assumes "queue s \<noteq> []" and "siteId (config s) \<noteq> []"
      and "snd (send (transport s) n (batch_of h s) sync) = Resolved"
  shows "fst (flush n h sync during s) = during (s\<lparr>queue := []\<rparr>)"
  using assms by (simp add: flush_started flush_settle_def)

lemma send_rejected:
  assumes "snd (send t h p sync) = Rejected e"
  shows "\<not> beacon_accepts h sync \<and> 1 \<le> maxAttempts t \<and>
         attempt_error (fetch h (nat (maxAttempts t))) = Some e \<and>
         length (fetch_calls (fst (send t h p sync))) = nat (maxAttempts t)"
proof -
  have nb: "\<not> beacon_accepts h sync" using assms by (auto simp: send_eq split: if_splits)
  then have "snd (fetch_loop t h p sync 0 (backoffBaseMs t)) = Rejected e"
    using assms by (simp add: send_eq)
  from fetch_loop_rejected [OF this] nb show ?thesis
    by (simp add: send_fetch_calls)
qed

lemma enqueue_all_append:
  "enqueue_all s (xs @ ys) =
     (case enqueue_all s xs of
        (s1, bs1) \<Rightarrow> (case enqueue_all s1 ys of (s2, bs2) \<Rightarrow> (s2, bs1 @ bs2)))"
  by (induction xs arbitrary: s) (auto split: prod.splits)

lemma attach_session_queue:
  "attach_session (s\<lparr>queue := q\<rparr>) ev = attach_session s ev"
  by (simp add: attach_session_def)

lemma queue_restore: "queue s = q \<Longrightarrow> s\<lparr>queue := q\<rparr> = s"
  by auto

lemma enqueue_all_below:
  assumes "siteId (config s) \<noteq> []"
      and "\<forall>x\<in>set evs. hasConsent s \<or> allowWithoutConsent (snd x)"
      and "int (length (queue s) + length evs) < batchSize (config s)"
  shows "enqueue_all s evs =
           (s\<lparr>queue := queue s @ map (attach_session s \<circ> snd) evs\<rparr>, [])"
  using assms
proof (induction evs arbitrary: s)
  case Nil
  then show ?case by simp
next
  case (Cons x evs)
  obtain h ev where x: "x = (h, ev)" by (cases x)
  let ?s1 = "s\<lparr>queue := queue s @ [attach_session s ev]\<rparr>"
  have c: "hasConsent s \<or> allowWithoutConsent ev" using Cons.prems(2) x by auto
  have lt: "\<not> batchSize (config s) \<le> int (length (queue s)) + 1"
    using Cons.prems(3) by simp
  have e: "enqueue h s ev = (?s1, None)"
    using enqueue_admitted [OF Cons.prems(1) c, of h] lt by simp
  have "enqueue_all ?s1 evs =
          (?s1\<lparr>queue := queue ?s1 @ map (attach_session ?s1 \<circ> snd) evs\<rparr>, [])"
    using Cons.prems by (intro Cons.IH) auto
  moreover have "attach_session ?s1 = attach_session s"
    by (rule ext) (simp add: attach_session_def)
  ultimately show ?case using e x by simp
qed

lemma attach_session_queue_fun: "attach_session (s\<lparr>queue := q\<rparr>) = attach_session s"
  by (rule ext) (simp add: attach_session_queue)

lemma send_first_ok:
  assumes "1 \<le> maxAttempts t" and "attempt_error (fetch n 1) = None"
  shows "send t n p False = ([Fetch p False], Resolved)"
proof -
  have "int 0 < maxAttempts t" using assms(1) by simp
  moreover have "attempt_error (fetch n (Suc 0)) = None" using assms(2) by simp
  ultimately have "fetch_loop t n p False 0 (backoffBaseMs t) = ([Fetch p False], Resolved)"
    by (rule fetch_loop_success)
  then show ?thesis by (simp add: send_def)
qed

text \<open>
  C1. An event whose kind is none of \<open>page_view\<close>, \<open>performance\<close>, \<open>engagement\<close> that is
  enqueued while consent has not been granted leaves the tracker as it is: the queue is
  unchanged and no flush starts, so no batch can hold the event. \<open>grantConsent\<close> grants
  consent. With consent and a site id, \<open>enqueue\<close> appends the event (with the session id
  attached) to the queue; it is then in the batch of the flush that this call starts at the
  threshold, or else in the batch of the next flush, and that batch is the body of the
  \<open>fetch\<close> that delivers it.
\<close>

theorem consent_gating:
  "(\<not> hasConsent s \<and> ev_type ev \<notin> {''page_view'', ''performance'', ''engagement''} \<longrightarrow>
      enqueue h s ev = (s, None)) \<and>
   hasConsent (fst (grantConsent (s, sh))) \<and>
   (hasConsent s \<and> siteId (config s) \<noteq> [] \<longrightarrow>
      enqueue h s ev =
        (if batchSize (config s) \<le> int (length (queue s)) + 1
         then (s\<lparr>queue := []\<rparr>, Some (batch_of h (s\<lparr>queue := queue s @ [attach_session s ev]\<rparr>)))
         else (s\<lparr>queue := queue s @ [attach_session s ev]\<rparr>, None)) \<and>
      flush_snapshot h' (s\<lparr>queue := queue s @ [attach_session s ev]\<rparr>) =
        (s\<lparr>queue := []\<rparr>, Some (batch_of h' (s\<lparr>queue := queue s @ [attach_session s ev]\<rparr>))) \<and>
      events (batch_of h' (s\<lparr>queue := queue s @ [attach_session s ev]\<rparr>)) =
        queue s @ [attach_session s ev] \<and>
      (1 \<le> maxAttempts (transport s) \<and> attempt_error (fetch n 1) = None \<longrightarrow>
         send (transport s) n (batch_of h' (s\<lparr>queue := queue s @ [attach_session s ev]\<rparr>)) False =
           ([Fetch (batch_of h' (s\<lparr>queue := queue s @ [attach_session s ev]\<rparr>)) False], Resolved)))"
proof -
  let ?s1 = "s\<lparr>queue := queue s @ [attach_session s ev]\<rparr>"
  have a: "enqueue h s ev = (s, None)"
    if "\<not> hasConsent s" "ev_type ev \<notin> {''page_view'', ''performance'', ''engagement''}"
    using that by (simp add: enqueue_def allowWithoutConsent_def EventType_defs)
  have b: "hasConsent (fst (grantConsent (s, sh)))"
    by (simp add: grantConsent_def initConsentListeners_def split: prod.splits)
  have c: "enqueue h s ev =
             (if batchSize (config s) \<le> int (length (queue s)) + 1
              then (s\<lparr>queue := []\<rparr>, Some (batch_of h ?s1)) else (?s1, None)) \<and>
           flush_snapshot h' ?s1 = (s\<lparr>queue := []\<rparr>, Some (batch_of h' ?s1))"
    if "hasConsent s" "siteId (config s) \<noteq> []"
  proof -
    have "flush_snapshot h' ?s1 = (?s1\<lparr>queue := []\<rparr>, Some (batch_of h' ?s1))"
      using that(2) by (intro flush_snapshot_some) simp_all
    then show ?thesis
      using enqueue_admitted [OF that(2), of ev h] that(1) by (simp add: batch_of_def)
  qed
  have d: "events (batch_of h' ?s1) = queue s @ [attach_session s ev]"
    by (simp add: batch_of_def)
  have e: "send (transport s) n (batch_of h' ?s1) False = ([Fetch (batch_of h' ?s1) False], Resolved)"
    if "1 \<le> maxAttempts (transport s)" "attempt_error (fetch n 1) = None"
    using that by (rule send_first_ok)
  from a b c d e show ?thesis by blast
qed

theorem consent_gating_witness:
  "\<not> hasConsent (ex_tracker ''site-1'' 15 4) \<and>
   ev_type (snd (ex_event CUSTOM 2000 (ex_tracker ''site-1'' 15 4)))
     \<notin> {''page_view'', ''performance'', ''engagement''} \<and>
   enqueue (ex_doc_at 2000) (ex_tracker ''site-1'' 15 4)
     (snd (ex_event CUSTOM 2000 (ex_tracker ''site-1'' 15 4))) =
     (ex_tracker ''site-1'' 15 4, None) \<and>
   hasConsent ex_consented \<and> siteId (config ex_consented) \<noteq> [] \<and>
   enqueue (ex_doc_at 3000) ex_consented (snd (ex_event CUSTOM 3000 ex_consented)) =
     (ex_consented\<lparr>queue := [ex_pageview, snd (ex_event CUSTOM 3000 ex_consented)]\<rparr>, None) \<and>
   1 \<le> maxAttempts (transport ex_consented) \<and>
   attempt_error (fetch (ex_net_up BeaconMissing) 1) = None \<and>
   send (transport ex_consented) (ex_net_up BeaconMissing)
     (batch_of (ex_doc_at 5000)
        (ex_consented\<lparr>queue := [ex_pageview, snd (ex_event CUSTOM 3000 ex_consented)]\<rparr>)) False =
     ([Fetch \<lparr> batch_siteId = ''site-1'', batch_ts = 5000,
               events = [ex_pageview, snd (ex_event CUSTOM 3000 ex_consented)] \<rparr> False],
      Resolved)"
proof -
  let ?s0 = "ex_tracker ''site-1'' 15 4"
  let ?e0 = "snd (ex_event CUSTOM 2000 ?s0)"
  let ?s1 = "ex_consented"
  let ?e1 = "snd (ex_event CUSTOM 3000 ?s1)"
  have a1: "\<not> hasConsent ?s0" by (simp add: ex_tracker_site1)
  have a2: "ev_type ?e0 \<notin> {''page_view'', ''performance'', ''engagement''}"
    by (simp add: ex_event_def ex_buildEvent CUSTOM_def)
  have b1: "hasConsent ?s1" by (simp add: ex_consented_eq)
  have b2: "siteId (config ?s1) \<noteq> []" by (simp add: ex_consented_eq ex_config_def)
  have c1: "1 \<le> maxAttempts (transport ?s1)"
    by (simp add: ex_consented_eq ex_config_def new_Transport_def)
  have c2: "attempt_error (fetch (ex_net_up BeaconMissing) 1) = None"
    by (simp add: ex_net_up_def attempt_error_def res_ok_def)
  have q: "queue ?s1 = [ex_pageview]" "batchSize (config ?s1) = 15"
          "siteId (config ?s1) = ''site-1''"
    by (simp_all add: ex_consented_eq ex_config_def)
  have att: "attach_session ?s1 ?e1 = ?e1"
    by (simp add: attach_session_def ex_event_def ex_buildEvent ex_consented_eq nonempty_def)
  have r0: "enqueue (ex_doc_at 2000) ?s0 ?e0 = (?s0, None)"
    using consent_gating [of ?s0 ?e0 "ex_doc_at 2000"] a1 a2 by blast
  have r1: "enqueue (ex_doc_at 3000) ?s1 ?e1 = (?s1\<lparr>queue := [ex_pageview, ?e1]\<rparr>, None)"
    using consent_gating [of ?s1 ?e1 "ex_doc_at 3000"] b1 b2 by (simp add: q att)
  have "send (transport ?s1) (ex_net_up BeaconMissing)
          (batch_of (ex_doc_at 5000) (?s1\<lparr>queue := queue ?s1 @ [attach_session ?s1 ?e1]\<rparr>)) False =
        ([Fetch (batch_of (ex_doc_at 5000) (?s1\<lparr>queue := queue ?s1 @ [attach_session ?s1 ?e1]\<rparr>)) False],
         Resolved)"
    using consent_gating [of ?s1 ?e1 _ _ "ex_doc_at 5000" "ex_net_up BeaconMissing"] b1 b2 c1 c2
    by blast
  then have r2: "send (transport ?s1) (ex_net_up BeaconMissing)
     (batch_of (ex_doc_at 5000) (?s1\<lparr>queue := [ex_pageview, ?e1]\<rparr>)) False =
     ([Fetch \<lparr> batch_siteId = ''site-1'', batch_ts = 5000, events = [ex_pageview, ?e1] \<rparr> False],
      Resolved)"
    by (simp add: q att batch_of_def ex_doc_at_def)
  from a1 a2 r0 b1 b2 r1 c1 c2 r2 show ?thesis by blast
qed

text \<open>
  C3. From an empty queue, with \<open>batchSize\<close> equal to the number \<open>B\<close> of events
  (\<open>B\<close> at least 1, as the configuration requires), enqueuing \<open>B\<close> admitted events one
  after the other starts exactly one flush. Its batch holds all \<open>B\<close> events in the
  order of the calls, and the tracker that the last call returns, before anything is
  delivered, is the initial one: its queue is empty again.
\<close>

theorem threshold_flush:
  assumes q: "queue s = []" and sid: "siteId (config s) \<noteq> []" and ne: "evs \<noteq> []"
      and b: "batchSize (config s) = int (length evs)"
      and adm: "\<forall>x\<in>set evs. hasConsent s \<or> allowWithoutConsent (snd x)"
  shows "enqueue_all s evs =
           (s, [\<lparr> batch_siteId = siteId (config s), batch_ts = clock (fst (last evs)),
                   events = map (attach_session s \<circ> snd) evs \<rparr>])"
proof -
  obtain h ev where l: "last evs = (h, ev)" by (cases "last evs")
  have evs: "evs = butlast evs @ [(h, ev)]" using ne l by (metis append_butlast_last_id)
  let ?s1 = "s\<lparr>queue := queue s @ map (attach_session s \<circ> snd) (butlast evs)\<rparr>"
  have "\<forall>x\<in>set (butlast evs). hasConsent s \<or> allowWithoutConsent (snd x)"
    using adm by (meson in_set_butlastD)
  moreover have "int (length (queue s) + length (butlast evs)) < batchSize (config s)"
    using q b ne by (cases evs rule: rev_cases) simp_all
  ultimately have a: "enqueue_all s (butlast evs) = (?s1, [])"
    by (rule enqueue_all_below [OF sid])
  have c: "hasConsent ?s1 \<or> allowWithoutConsent ev"
    using adm ne l last_in_set [OF ne] by auto
  have sid1: "siteId (config ?s1) \<noteq> []" using sid by simp
  have len: "int (length (butlast evs)) + 1 = int (length evs)"
    using ne by (cases evs rule: rev_cases) simp_all
  have "length (queue ?s1) = length (butlast evs)" using q by simp
  then have ge: "batchSize (config ?s1) \<le> int (length (queue ?s1)) + 1"
    using b len by simp
  have m: "map (attach_session s \<circ> snd) (butlast evs) @ [attach_session s ev] =
           map (attach_session s \<circ> snd) evs"
    by (subst (2) evs) simp
  have r: "?s1\<lparr>queue := []\<rparr> = s" using q by (simp add: queue_restore)
  have qs: "queue ?s1 @ [attach_session ?s1 ev] = map (attach_session s \<circ> snd) evs"
    using q m by (simp add: attach_session_queue)
  have "enqueue h ?s1 ev =
          (?s1\<lparr>queue := []\<rparr>,
           Some \<lparr> batch_siteId = siteId (config ?s1), batch_ts = clock h,
                   events = queue ?s1 @ [attach_session ?s1 ev] \<rparr>)"
    using enqueue_admitted [OF sid1 c, of h] ge by simp
  then have e0: "enqueue h ?s1 ev =
          (?s1\<lparr>queue := []\<rparr>,
           Some \<lparr> batch_siteId = siteId (config s), batch_ts = clock h,
                   events = map (attach_session s \<circ> snd) evs \<rparr>)"
    unfolding qs by simp
  have e: "enqueue h ?s1 ev =
             (s, Some \<lparr> batch_siteId = siteId (config s), batch_ts = clock h,
                        events = map (attach_session s \<circ> snd) evs \<rparr>)"
    using e0 unfolding r .
  have "enqueue_all s evs = enqueue_all s (butlast evs @ [(h, ev)])"
    using evs by simp
  also have "\<dots> = (s, [\<lparr> batch_siteId = siteId (config s), batch_ts = clock h,
                        events = map (attach_session s \<circ> snd) evs \<rparr>])"
    by (simp add: enqueue_all_append a e)
  finally show ?thesis using l by simp
qed

theorem threshold_flush_witness:
  "queue (ex_site 3 4) = [] \<and> siteId (config (ex_site 3 4)) \<noteq> [] \<and>
   batchSize (config (ex_site 3 4)) = 3 \<and>
   enqueue_all (ex_site 3 4)
     [ex_event PAGE_VIEW 2000 (ex_site 3 4), ex_event PERFORMANCE 3000 (ex_site 3 4),
      ex_event ENGAGEMENT 4000 (ex_site 3 4)] =
     (ex_site 3 4,
      [\<lparr> batch_siteId = ''site-1'', batch_ts = 4000,
          events = [snd (ex_event PAGE_VIEW 2000 (ex_site 3 4)),
                    snd (ex_event PERFORMANCE 3000 (ex_site 3 4)),
                    snd (ex_event ENGAGEMENT 4000 (ex_site 3 4))] \<rparr>])"
proof -
  let ?s = "ex_site 3 4"
  let ?evs = "[ex_event PAGE_VIEW 2000 ?s, ex_event PERFORMANCE 3000 ?s,
               ex_event ENGAGEMENT 4000 ?s]"
  have q: "queue ?s = []" by (simp add: ex_site_eq)
  have sid: "siteId (config ?s) \<noteq> []" by (simp add: ex_site_eq ex_config_def)
  have sidv: "siteId (config ?s) = ''site-1''" by (simp add: ex_site_eq ex_config_def)
  have ne: "?evs \<noteq> []" by simp
  have b: "batchSize (config ?s) = int (length ?evs)" by (simp add: ex_site_eq ex_config_def)
  have adm: "\<forall>x\<in>set ?evs. hasConsent ?s \<or> allowWithoutConsent (snd x)"
    by (simp add: ex_event_def allowWithoutConsent_def ex_buildEvent)
  have att: "attach_session ?s = (\<lambda>ev. ev)"
    by (rule ext) (simp add: attach_session_def ex_site_eq)
  have cl: "clock (fst (ex_event ENGAGEMENT 4000 ?s)) = 4000"
    by (simp add: ex_event_def ex_doc_at_def)
  show ?thesis
    using threshold_flush [OF q sid ne b adm] q sid b
    by (simp add: att cl sidv)
qed

text \<open>
  C6. While \<open>siteId\<close> is unset (the empty string), \<open>enqueue\<close> returns at once: the
  tracker, and so its queue, is unchanged and no flush is started, whatever the event and
  whatever the rest of the state.
\<close>

theorem enqueue_without_siteId:
  "siteId (config s) = [] \<Longrightarrow> enqueue h s ev = (s, None)"
  by (simp add: enqueue_def)

theorem enqueue_without_siteId_witness:
  "siteId (config (ex_tracker [] 15 4)) = [] \<and>
   enqueue ex_doc (ex_tracker [] 15 4) (ex_click (ex_tracker [] 15 4)) =
     (ex_tracker [] 15 4, None)"
proof -
  have h: "siteId (config (ex_tracker [] 15 4)) = []"
    by (simp add: ex_tracker_def ex_config_def DEFAULTS_def new_AnalyticsTracker_def
                  trackPage_def page_event_def enqueue_def)
  show ?thesis using h enqueue_without_siteId [OF h] by simp
qed

section \<open>Flushing\<close>

text \<open>
  C2, as stated, fails when two flushes overlap. The first flush takes the page view of
  time 1000; a page view of time 5100 arrives and a second flush takes it while the first
  \<open>send\<close> is in flight; on a network that is down both sends reject, the first before the
  second. Each \<open>catch\<close> block puts its batch in front of the queue, so the queue ends with
  the younger event ahead of the older one: it is not the batch of the second flush followed
  by events enqueued during its attempt, and it is not in the order of arrival.
\<close>

theorem overlapping_flushes_reorder:
  "map ts (queue (tracker ex_world0)) = [1000] \<and>
   map (map ts \<circ> events) (inflight (run ex_world0 (take 3 ex_overlap))) = [[1000], [5100]] \<and>
   queue (tracker (run ex_world0 (take 3 ex_overlap))) = [] \<and>
   snd (send (transport (tracker ex_world0)) (ex_net_down BeaconMissing)
          (inflight (run ex_world0 (take 3 ex_overlap)) ! 0) False) =
     Rejected (NetworkError ''offline'') \<and>
   snd (send (transport (tracker ex_world0)) (ex_net_down BeaconMissing)
          (inflight (run ex_world0 (take 3 ex_overlap)) ! 1) False) =
     Rejected (NetworkError ''offline'') \<and>
   map ts (queue (tracker (run ex_world0 ex_overlap))) = [5100, 1000]"
  by (simp add: ex_world0_def ex_overlap_def run_def started_by_def flush_snapshot_def
                flush_settle_def trackPage_def ex_page_event enqueue_def allowWithoutConsent_def
                PAGE_VIEW_def attach_session_def ex_tracker_site1 ex_config_def DEFAULTS_def
                ex_pageview_def ex_send_down [unfolded ex_config_def DEFAULTS_def, simplified])

text \<open>
  C2, amended. When \<open>send\<close> rejects, which it does only after \<open>retryMaxAttempts\<close> calls
  of \<open>fetch\<close> have all failed, \<open>flush\<close> puts the whole batch back in front of whatever
  the queue holds at that moment and changes nothing else, whatever code ran in between:
  nothing of the batch is lost. When that code only enqueued events, fewer than
  \<open>batchSize\<close> so that no other flush started, the queue is the queue from before the
  flush followed by those events, in the order of arrival.
\<close>

theorem flush_failure_requeues:
  assumes "queue s \<noteq> []" and "siteId (config s) \<noteq> []"
      and "snd (send (transport s) n (batch_of h s) sync) = Rejected e"
  shows "1 \<le> maxAttempts (transport s) \<and>
         length (fetch_calls (snd (flush n h sync during s))) = nat (maxAttempts (transport s)) \<and>
         fst (flush n h sync during s) =
           (during (s\<lparr>queue := []\<rparr>))\<lparr>queue := queue s @ queue (during (s\<lparr>queue := []\<rparr>))\<rparr> \<and>
         ((\<forall>x\<in>set evs. hasConsent s \<or> allowWithoutConsent (snd x)) \<and>
          int (length evs) < batchSize (config s) \<longrightarrow>
            queue (fst (flush n h sync (\<lambda>s'. fst (enqueue_all s' evs)) s)) =
              queue s @ map (attach_session s \<circ> snd) evs)"
proof -
  note r = send_rejected [OF assms(3)]
  have a: "1 \<le> maxAttempts (transport s)" using r by simp
  have b: "length (fetch_calls (snd (flush n h sync during s))) = nat (maxAttempts (transport s))"
    using r by (simp add: flush_started [OF assms(1,2)])
  have c: "fst (flush n h sync d s) = (d (s\<lparr>queue := []\<rparr>))\<lparr>queue := queue s @ queue (d (s\<lparr>queue := []\<rparr>))\<rparr>"
    for d by (rule flush_rejected [OF assms])
  have d: "queue (fst (flush n h sync (\<lambda>s'. fst (enqueue_all s' evs)) s)) =
              queue s @ map (attach_session s \<circ> snd) evs"
    if "\<forall>x\<in>set evs. hasConsent s \<or> allowWithoutConsent (snd x)"
       "int (length evs) < batchSize (config s)"
  proof -
    let ?s0 = "s\<lparr>queue := []\<rparr>"
    have "enqueue_all ?s0 evs = (?s0\<lparr>queue := queue ?s0 @ map (attach_session ?s0 \<circ> snd) evs\<rparr>, [])"
      using assms(2) that by (intro enqueue_all_below) simp_all
    then show ?thesis by (simp add: c attach_session_queue_fun)
  qed
  from a b c d show ?thesis by blast
qed

theorem flush_failure_requeues_witness:
  "queue (ex_tracker ''site-1'' 15 2) \<noteq> [] \<and> siteId (config (ex_tracker ''site-1'' 15 2)) \<noteq> [] \<and>
   snd (send (transport (ex_tracker ''site-1'' 15 2)) (ex_net_down BeaconMissing)
          (batch_of (ex_doc_at 5000) (ex_tracker ''site-1'' 15 2)) False) =
     Rejected (NetworkError ''offline'') \<and>
   queue (fst (flush (ex_net_down BeaconMissing) (ex_doc_at 5000) False
                 (\<lambda>s'. fst (enqueue_all s' [ex_event PERFORMANCE 6000 (ex_tracker ''site-1'' 15 2)]))
                 (ex_tracker ''site-1'' 15 2))) =
     [ex_pageview, snd (ex_event PERFORMANCE 6000 (ex_tracker ''site-1'' 15 2))]"
proof -
  let ?s = "ex_tracker ''site-1'' 15 2"
  let ?evs = "[ex_event PERFORMANCE 6000 ?s]"
  have a: "queue ?s \<noteq> []" by (simp add: ex_tracker_site1)
  have b: "siteId (config ?s) \<noteq> []" by (simp add: ex_tracker_site1 ex_config_def)
  have c: "snd (send (transport ?s) (ex_net_down BeaconMissing) (batch_of (ex_doc_at 5000) ?s) False) =
             Rejected (NetworkError ''offline'')"
    by (simp add: ex_tracker_site1 ex_send_down)
  have d: "(\<forall>x\<in>set ?evs. hasConsent ?s \<or> allowWithoutConsent (snd x)) \<and>
           int (length ?evs) < batchSize (config ?s)"
    by (simp add: ex_event_def ex_buildEvent allowWithoutConsent_def ex_tracker_site1 ex_config_def)
  have att: "attach_session ?s = (\<lambda>ev. ev)"
    by (rule ext) (simp add: attach_session_def ex_tracker_site1)
  have q: "queue ?s = [ex_pageview]" by (simp add: ex_tracker_site1)
  have "queue (fst (flush (ex_net_down BeaconMissing) (ex_doc_at 5000) False
                 (\<lambda>s'. fst (enqueue_all s' ?evs)) ?s)) =
          queue ?s @ map (attach_session ?s \<circ> snd) ?evs"
    using flush_failure_requeues [OF a b c, of _ ?evs] d by blast
  then have "queue (fst (flush (ex_net_down BeaconMissing) (ex_doc_at 5000) False
                 (\<lambda>s'. fst (enqueue_all s' ?evs)) ?s)) = [ex_pageview, snd (ex_event PERFORMANCE 6000 ?s)]"
    by (simp add: att q)
  with a b c show ?thesis by blast
qed

text \<open>
  C8. With an empty queue or without a site id, \<open>flush\<close> in either mode returns at once:
  the tracker (queue, configuration, consent, session and all other fields) is unchanged,
  the transport is not called, and the code that would run during a suspension does not
  enter.
\<close>

theorem flush_noop:
  "queue s = [] \<or> siteId (config s) = [] \<Longrightarrow>
     flush n h sync during s = (s, []) \<and> flush_snapshot h s = (s, None)"
  by (simp add: flush_def flush_snapshot_none)

theorem flush_noop_witness:
  "queue (ex_tracker [] 15 4) = [] \<and>
   flush (ex_net_up BeaconMissing) (ex_doc_at 5000) False (\<lambda>s. s) (ex_tracker [] 15 4) =
     (ex_tracker [] 15 4, []) \<and>
   siteId (config ((ex_tracker [] 15 4)\<lparr>queue := [ex_pageview]\<rparr>)) = [] \<and>
   flush (ex_net_up (BeaconReturns True)) (ex_doc_at 5000) True (\<lambda>s. s)
     ((ex_tracker [] 15 4)\<lparr>queue := [ex_pageview]\<rparr>) =
     ((ex_tracker [] 15 4)\<lparr>queue := [ex_pageview]\<rparr>, [])"
proof -
  let ?s = "ex_tracker [] 15 4"
  let ?u = "?s\<lparr>queue := [ex_pageview]\<rparr>"
  have a: "queue ?s = []" by (simp add: ex_tracker_unset)
  have b: "siteId (config ?u) = []" by (simp add: ex_tracker_unset ex_config_def DEFAULTS_def)
  have a': "queue ?s = [] \<or> siteId (config ?s) = []" using a by simp
  have b': "queue ?u = [] \<or> siteId (config ?u) = []" using b by simp
  show ?thesis
    using a b flush_noop [OF a', of "ex_net_up BeaconMissing" "ex_doc_at 5000" False "\<lambda>s. s"]
          flush_noop [OF b', of "ex_net_up (BeaconReturns True)" "ex_doc_at 5000" True "\<lambda>s. s"]
    by blast
qed

text \<open>
  C5, as stated, fails. A flush in sync mode whose beacon is refused falls back to
  \<open>fetch\<close>; with the network down both attempts fail, \<open>send\<close> rejects and the
  \<open>catch\<close> block of \<open>flush\<close> puts the page view back: the tracker after the flush is
  the tracker before it, queue included.
\<close>

theorem sync_flush_requeues:
  "queue (ex_tracker ''site-1'' 15 2) = [ex_pageview] \<and>
   flush (ex_net_down (BeaconReturns False)) (ex_doc_at 5000) True (\<lambda>s. s)
     (ex_tracker ''site-1'' 15 2) =
     (ex_tracker ''site-1'' 15 2,
      [SendBeacon (batch_of (ex_doc_at 5000) (ex_tracker ''site-1'' 15 2)),
       Fetch (batch_of (ex_doc_at 5000) (ex_tracker ''site-1'' 15 2)) True, Wait 150,
       Fetch (batch_of (ex_doc_at 5000) (ex_tracker ''site-1'' 15 2)) True])"
proof -
  let ?s = "ex_tracker ''site-1'' 15 2"
  have q: "queue ?s = [ex_pageview]" by (simp add: ex_tracker_site1)
  have a: "queue ?s \<noteq> []" by (simp add: ex_tracker_site1)
  have b: "siteId (config ?s) \<noteq> []" by (simp add: ex_tracker_site1 ex_config_def)
  have t: "transport ?s = new_Transport (ex_config ''site-1'' 15 2)" by (simp add: ex_tracker_site1)
  have r: "?s\<lparr>queue := [ex_pageview]\<rparr> = ?s" using q by (rule queue_restore)
  show ?thesis
    using q r by (simp add: flush_started [OF a b] t ex_send_down_sync flush_settle_def batch_of_def)
qed

text \<open>
  C5, amended. In sync mode a beacon that the host accepts ends \<open>send\<close> at once: no
  \<open>fetch\<close> is made and the batch does not come back to the queue. When the beacon is
  missing, refused or throws, \<open>send\<close> falls back to the retrying \<open>fetch\<close> with
  \<open>keepalive\<close> set, and the outcome of that fallback does feed back into the queue: when
  it rejects, \<open>flush\<close> puts the batch back in front of the queue, as in async mode.
\<close>

theorem sync_flush_feedback:
  assumes "queue s \<noteq> []" and "siteId (config s) \<noteq> []"
  shows "(beacon n = BeaconReturns True \<longrightarrow>
            flush n h True during s = (during (s\<lparr>queue := []\<rparr>), [SendBeacon (batch_of h s)])) \<and>
         (beacon n \<noteq> BeaconReturns True \<longrightarrow>
            flush n h True during s =
              (flush_settle (batch_of h s)
                 (snd (fetch_loop (transport s) n (batch_of h s) True 0 (backoffBaseMs (transport s))))
                 (during (s\<lparr>queue := []\<rparr>)),
               beacon_prefix n (batch_of h s) True @
                 fst (fetch_loop (transport s) n (batch_of h s) True 0 (backoffBaseMs (transport s))))) \<and>
         (snd (send (transport s) n (batch_of h s) True) = Rejected e \<longrightarrow>
            beacon n \<noteq> BeaconReturns True \<and>
            fst (flush n h True during s) =
              (during (s\<lparr>queue := []\<rparr>))\<lparr>queue := queue s @ queue (during (s\<lparr>queue := []\<rparr>))\<rparr>)"
proof -
  have a: "flush n h True during s = (during (s\<lparr>queue := []\<rparr>), [SendBeacon (batch_of h s)])"
    if "beacon n = BeaconReturns True"
    using that by (simp add: flush_started [OF assms] send_eq beacon_accepts_def flush_settle_def)
  have b: "flush n h True during s =
              (flush_settle (batch_of h s)
                 (snd (fetch_loop (transport s) n (batch_of h s) True 0 (backoffBaseMs (transport s))))
                 (during (s\<lparr>queue := []\<rparr>)),
               beacon_prefix n (batch_of h s) True @
                 fst (fetch_loop (transport s) n (batch_of h s) True 0 (backoffBaseMs (transport s))))"
    if "beacon n \<noteq> BeaconReturns True"
    using that by (simp add: flush_started [OF assms] send_eq beacon_accepts_def)
  have c: "beacon n \<noteq> BeaconReturns True \<and>
           fst (flush n h True during s) =
              (during (s\<lparr>queue := []\<rparr>))\<lparr>queue := queue s @ queue (during (s\<lparr>queue := []\<rparr>))\<rparr>"
    if "snd (send (transport s) n (batch_of h s) True) = Rejected e"
    using send_rejected [OF that] flush_rejected [OF assms that]
    by (simp add: beacon_accepts_def)
  from a b c show ?thesis by blast
qed

theorem sync_flush_feedback_witness:
  "queue (ex_tracker ''site-1'' 15 2) \<noteq> [] \<and> siteId (config (ex_tracker ''site-1'' 15 2)) \<noteq> [] \<and>
   beacon (ex_net_down (BeaconReturns True)) = BeaconReturns True \<and>
   flush (ex_net_down (BeaconReturns True)) (ex_doc_at 5000) True (\<lambda>s. s)
     (ex_tracker ''site-1'' 15 2) =
     ((ex_tracker ''site-1'' 15 2)\<lparr>queue := []\<rparr>,
      [SendBeacon (batch_of (ex_doc_at 5000) (ex_tracker ''site-1'' 15 2))]) \<and>
   snd (send (transport (ex_tracker ''site-1'' 15 2)) (ex_net_down BeaconThrows)
          (batch_of (ex_doc_at 5000) (ex_tracker ''site-1'' 15 2)) True) =
     Rejected (NetworkError ''offline'') \<and>
   queue (fst (flush (ex_net_down BeaconThrows) (ex_doc_at 5000) True (\<lambda>s. s)
                 (ex_tracker ''site-1'' 15 2))) = [ex_pageview]"
proof -
  let ?s = "ex_tracker ''site-1'' 15 2"
  have a: "queue ?s \<noteq> []" by (simp add: ex_tracker_site1)
  have b: "siteId (config ?s) \<noteq> []" by (simp add: ex_tracker_site1 ex_config_def)
  have c: "beacon (ex_net_down (BeaconReturns True)) = BeaconReturns True"
    by (simp add: ex_net_down_def)
  have d: "snd (send (transport ?s) (ex_net_down BeaconThrows) (batch_of (ex_doc_at 5000) ?s) True) =
             Rejected (NetworkError ''offline'')"
    by (simp add: ex_tracker_site1 send_def fetch_loop.simps new_Transport_def ex_config_def
                  DEFAULTS_def ex_net_down_def attempt_error_def js_round_def floor_eq_iff)
  have r1: "flush (ex_net_down (BeaconReturns True)) (ex_doc_at 5000) True (\<lambda>s. s) ?s =
              (?s\<lparr>queue := []\<rparr>, [SendBeacon (batch_of (ex_doc_at 5000) ?s)])"
    using sync_flush_feedback [OF a b, of "ex_net_down (BeaconReturns True)" "ex_doc_at 5000" "\<lambda>s. s"] c
    by blast
  have "fst (flush (ex_net_down BeaconThrows) (ex_doc_at 5000) True (\<lambda>s. s) ?s) =
          (?s\<lparr>queue := []\<rparr>)\<lparr>queue := queue ?s @ queue (?s\<lparr>queue := []\<rparr>)\<rparr>"
    using sync_flush_feedback [OF a b, of "ex_net_down BeaconThrows" "ex_doc_at 5000" "\<lambda>s. s"
                                 "NetworkError ''offline''"] d
    by blast
  then have r2: "queue (fst (flush (ex_net_down BeaconThrows) (ex_doc_at 5000) True (\<lambda>s. s) ?s)) =
                   [ex_pageview]"
    by (simp add: ex_tracker_site1)
  from a b c r1 d r2 show ?thesis by blast
qed

text \<open>
  C9, as stated, fails in sync mode. With \<open>retryMaxAttempts = 0\<close> the flush of the
  \<open>beforeunload\<close> listener still calls \<open>sendBeacon\<close>, which runs before the loop; here
  the host accepts the beacon, so the batch with the page view is handed over for delivery:
  a delivery attempt is made and the event is not lost.
\<close>

theorem sync_flush_without_budget_delivers:
  "maxAttempts (transport (ex_tracker ''site-1'' 15 0)) \<le> 0 \<and>
   queue (ex_tracker ''site-1'' 15 0) = [ex_pageview] \<and>
   flush (ex_net_up (BeaconReturns True)) (ex_doc_at 5000) True (\<lambda>s. s)
     (ex_tracker ''site-1'' 15 0) =
     ((ex_tracker ''site-1'' 15 0)\<lparr>queue := []\<rparr>,
      [SendBeacon \<lparr> batch_siteId = ''site-1'', batch_ts = 5000, events = [ex_pageview] \<rparr>])"
proof -
  let ?s = "ex_tracker ''site-1'' 15 0"
  have m: "maxAttempts (transport ?s) \<le> 0"
    by (simp add: ex_tracker_site1 new_Transport_def ex_config_def)
  have q: "queue ?s = [ex_pageview]" by (simp add: ex_tracker_site1)
  have a: "queue ?s \<noteq> []" by (simp add: q)
  have b: "siteId (config ?s) \<noteq> []" by (simp add: ex_tracker_site1 ex_config_def)
  have p: "batch_of (ex_doc_at 5000) ?s =
             \<lparr> batch_siteId = ''site-1'', batch_ts = 5000, events = [ex_pageview] \<rparr>"
    by (simp add: batch_of_def ex_tracker_site1 ex_config_def ex_doc_at_def)
  have acc: "beacon_accepts (ex_net_up (BeaconReturns True)) True"
    by (simp add: beacon_accepts_def ex_net_up_def)
  have "flush (ex_net_up (BeaconReturns True)) (ex_doc_at 5000) True (\<lambda>s. s) ?s =
          (?s\<lparr>queue := []\<rparr>, [SendBeacon (batch_of (ex_doc_at 5000) ?s)])"
    using acc by (simp add: flush_started [OF a b] send_eq flush_settle_def)
  with m q show ?thesis by (simp only: p)
qed

text \<open>
  C9, amended. The transport takes \<open>retryMaxAttempts\<close> from the configuration as it is.
  When it is zero or negative the loop body never runs: in either mode \<open>send\<close> calls
  \<open>fetch\<close> not once and resolves, so \<open>flush\<close> takes the batch for delivered and does not
  put it back. In async mode the transport does nothing at all, so the queued events are
  gone without any network attempt. In sync mode all that the transport does is the one
  \<open>sendBeacon\<close> call that precedes the loop, where the host has \<open>sendBeacon\<close>.
\<close>

theorem no_attempts_without_budget:
  assumes "maxAttempts (transport s) \<le> 0" and "queue s \<noteq> []" and "siteId (config s) \<noteq> []"
  shows "send (transport s) n (batch_of h s) False = ([], Resolved) \<and>
         snd (send (transport s) n (batch_of h s) sync) = Resolved \<and>
         fetch_calls (fst (send (transport s) n (batch_of h s) sync)) = [] \<and>
         fst (send (transport s) n (batch_of h s) sync) = beacon_prefix n (batch_of h s) sync \<and>
         flush n h False during s = (during (s\<lparr>queue := []\<rparr>), []) \<and>
         flush n h sync during s =
           (during (s\<lparr>queue := []\<rparr>), beacon_prefix n (batch_of h s) sync) \<and>
         fetch_calls (snd (flush n h sync during s)) = [] \<and>
         maxAttempts (transport (fst (new_AnalyticsTracker h0 timer cfg))) = retryMaxAttempts cfg"
proof -
  have l: "fetch_loop (transport s) n (batch_of h s) k 0 (backoffBaseMs (transport s)) = ([], Resolved)"
    for k using assms(1) by (intro fetch_loop_done) simp
  have a: "send (transport s) n (batch_of h s) False = ([], Resolved)"
    by (simp add: send_eq l beacon_accepts_def beacon_prefix_def)
  have b: "snd (send (transport s) n (batch_of h s) sync) = Resolved"
    by (simp add: send_eq l)
  have c: "fetch_calls (fst (send (transport s) n (batch_of h s) sync)) = []"
    by (simp add: send_fetch_calls l)
  have t: "fst (send (transport s) n (batch_of h s) sync) = beacon_prefix n (batch_of h s) sync"
    by (simp add: send_eq l beacon_accepts_def beacon_prefix_def)
  have d: "flush n h False during s = (during (s\<lparr>queue := []\<rparr>), [])"
    by (simp add: flush_started [OF assms(2,3)] a flush_settle_def)
  have e: "flush n h sync during s =
             (during (s\<lparr>queue := []\<rparr>), beacon_prefix n (batch_of h s) sync)"
    by (simp add: flush_started [OF assms(2,3)] b t flush_settle_def)
  have f: "fetch_calls (snd (flush n h sync during s)) = []"
    by (simp add: flush_started [OF assms(2,3)] c)
  have g: "maxAttempts (transport (fst (new_AnalyticsTracker h0 timer cfg))) = retryMaxAttempts cfg"
    by (simp add: new_AnalyticsTracker_def trackPage_def page_event_def enqueue_def flush_snapshot_def
                  new_Transport_def Let_def split: prod.splits)
  from a b c t d e f g show ?thesis by blast
qed

theorem no_attempts_without_budget_witness:
  "maxAttempts (transport (ex_tracker ''site-1'' 15 0)) \<le> 0 \<and>
   queue (ex_tracker ''site-1'' 15 0) \<noteq> [] \<and> siteId (config (ex_tracker ''site-1'' 15 0)) \<noteq> [] \<and>
   flush (ex_net_up BeaconMissing) (ex_doc_at 5000) False (\<lambda>s. s) (ex_tracker ''site-1'' 15 0) =
     ((ex_tracker ''site-1'' 15 0)\<lparr>queue := []\<rparr>, []) \<and>
   flush (ex_net_up (BeaconReturns False)) (ex_doc_at 5000) True (\<lambda>s. s)
     (ex_tracker ''site-1'' 15 0) =
     ((ex_tracker ''site-1'' 15 0)\<lparr>queue := []\<rparr>,
      [SendBeacon (batch_of (ex_doc_at 5000) (ex_tracker ''site-1'' 15 0))])"
proof -
  let ?s = "ex_tracker ''site-1'' 15 0"
  have a: "maxAttempts (transport ?s) \<le> 0"
    by (simp add: ex_tracker_site1 new_Transport_def ex_config_def)
  have b: "queue ?s \<noteq> []" by (simp add: ex_tracker_site1)
  have c: "siteId (config ?s) \<noteq> []" by (simp add: ex_tracker_site1 ex_config_def)
  have p: "beacon_prefix (ex_net_up (BeaconReturns False)) (batch_of (ex_doc_at 5000) ?s) True =
             [SendBeacon (batch_of (ex_doc_at 5000) ?s)]"
    by (simp add: beacon_prefix_def ex_net_up_def)
  have r1: "flush (ex_net_up BeaconMissing) (ex_doc_at 5000) False (\<lambda>s. s) ?s =
              (?s\<lparr>queue := []\<rparr>, [])"
    using no_attempts_without_budget [OF a b c, of "ex_net_up BeaconMissing" "ex_doc_at 5000" _ "\<lambda>s. s"]
    by blast
  have "flush (ex_net_up (BeaconReturns False)) (ex_doc_at 5000) True (\<lambda>s. s) ?s =
          (?s\<lparr>queue := []\<rparr>,
           beacon_prefix (ex_net_up (BeaconReturns False)) (batch_of (ex_doc_at 5000) ?s) True)"
    using no_attempts_without_budget [OF a b c, of "ex_net_up (BeaconReturns False)" "ex_doc_at 5000"
                                        True "\<lambda>s. s"]
    by blast
  then have r2: "flush (ex_net_up (BeaconReturns False)) (ex_doc_at 5000) True (\<lambda>s. s) ?s =
          (?s\<lparr>queue := []\<rparr>, [SendBeacon (batch_of (ex_doc_at 5000) ?s)])"
    by (simp only: p)
  from a b c r1 r2 show ?thesis by blast
qed

section \<open>Consent\<close>








lemma flush_settle_frame: "flush_settle b out s = s\<lparr>queue := queue (flush_settle b out s)\<rparr>"
  by (simp add: flush_settle_def split: outcome.splits)









section \<open>Building events\<close>

text \<open>
  C10. \<open>buildEvent\<close> cannot tell an empty \<open>url\<close> or \<open>title\<close> override from a missing
  one: both give the event the \<open>location.href\<close> and the \<open>document.title\<close> of the page.
  So \<open>trackPage("", "")\<close> is \<open>trackPage()\<close>, and the empty strings of the caller are
  never what the event records.
\<close>

theorem buildEvent_empty_overrides:
  "buildEvent h s kind (ov\<lparr>o_url := Some []\<rparr>) = buildEvent h s kind (ov\<lparr>o_url := None\<rparr>) \<and>
   buildEvent h s kind (ov\<lparr>o_title := Some []\<rparr>) = buildEvent h s kind (ov\<lparr>o_title := None\<rparr>) \<and>
   url (buildEvent h s kind (ov\<lparr>o_url := Some []\<rparr>)) = or_empty (location_href h) \<and>
   title (buildEvent h s kind (ov\<lparr>o_title := Some []\<rparr>)) = document_title h \<and>
   page_event h (Some []) (Some []) s = page_event h None None s \<and>
   url (page_event h (Some []) (Some []) s) = or_empty (location_href h) \<and>
   title (page_event h (Some []) (Some []) s) = document_title h \<and>
   trackPage h (Some []) (Some []) s = trackPage h None None s"
  by (cases "document_title h")
     (simp_all add: buildEvent_def page_event_def trackPage_def js_or_def or_empty_def)


theorem buildEvent_empty_overrides_witness:
  "url (page_event ex_doc (Some []) (Some []) (ex_site 15 4)) =
     ''https://shop.example/cart?utm_source=news'' \<and>
   title (page_event ex_doc (Some []) (Some []) (ex_site 15 4)) = Some ''Cart'' \<and>
   trackPage ex_doc (Some []) (Some []) (ex_site 15 4) = trackPage ex_doc None None (ex_site 15 4)"
proof -
  have "url (page_event ex_doc (Some []) (Some []) (ex_site 15 4)) = or_empty (location_href ex_doc) \<and>
        title (page_event ex_doc (Some []) (Some []) (ex_site 15 4)) = document_title ex_doc \<and>
        trackPage ex_doc (Some []) (Some []) (ex_site 15 4) = trackPage ex_doc None None (ex_site 15 4)"
    using buildEvent_empty_overrides [of ex_doc "ex_site 15 4"] by blast
  then show ?thesis by (simp add: ex_doc_def or_empty_def)
qed

end
